theory Spec2Isabelle
  imports Main
begin

section \<open>JavaScript strings and values\<close>

text \<open>
  A JavaScript string is a sequence of UTF-16 code units; a code unit is modelled as a
  natural number.  Literals of the source are written \<open>js ''...''\<close>, and a code unit
  outside ASCII is written as its number.
\<close>

type_synonym jsstring = "nat list"

abbreviation js :: "string \<Rightarrow> jsstring" where
  "js s \<equiv> map of_char s"

definition isDigit :: "nat \<Rightarrow> bool" where
  "isDigit c \<longleftrightarrow> 48 \<le> c \<and> c \<le> 57"

text \<open>The code units that \<open>String.prototype.trim\<close> strips (WhiteSpace and LineTerminator).\<close>

definition isWhiteSpace :: "nat \<Rightarrow> bool" where
  "isWhiteSpace c \<longleftrightarrow>
     c \<in> set [9, 10, 11, 12, 13, 32, 160, 5760, 8232, 8233, 8239, 8287, 12288, 65279]
     \<or> (8192 \<le> c \<and> c \<le> 8202)"

definition trim :: "jsstring \<Rightarrow> jsstring" where
  "trim s = rev (dropWhile isWhiteSpace (rev (dropWhile isWhiteSpace s)))"

text \<open>\<open>s.slice(0, n)\<close> for a non-negative \<open>n\<close>.\<close>

definition slice0 :: "nat \<Rightarrow> jsstring \<Rightarrow> jsstring" where
  "slice0 n s = take n s"

text \<open>\<open>String(n)\<close> and \<open>`${n}`\<close> for a non-negative integer \<open>n\<close>: its decimal digits.\<close>

fun nat_to_string :: "nat \<Rightarrow> jsstring" where
  "nat_to_string n = (if n < 10 then [48 + n] else nat_to_string (n div 10) @ [48 + n mod 10])"

declare nat_to_string.simps [simp del]

text \<open>\<open>xs.join(sep)\<close> on an array of strings.\<close>

fun join :: "jsstring \<Rightarrow> jsstring list \<Rightarrow> jsstring" where
  "join sep [] = []"
| "join sep [x] = x"
| "join sep (x # y # ys) = x @ sep @ join sep (y # ys)"

text \<open>\<open>s.startsWith(p)\<close>, which is what the attribute selector \<open>[id^='p']\<close> tests.\<close>

definition startsWith :: "jsstring \<Rightarrow> jsstring \<Rightarrow> bool" where
  "startsWith p s \<longleftrightarrow> take (length p) s = p"

text \<open>\<open>s.includes(p)\<close>.\<close>

definition str_includes :: "jsstring \<Rightarrow> jsstring \<Rightarrow> bool" where
  "str_includes p s \<longleftrightarrow> list_ex (\<lambda>i. startsWith p (drop i s)) [0..<Suc (length s)]"

text \<open>
  \<open>encodeURIComponent(s)\<close> raises on a string with a lone surrogate, and on no other;
  on a string of digits it is the identity.
\<close>

fun well_formed_utf16 :: "jsstring \<Rightarrow> bool" where
  "well_formed_utf16 [] = True"
| "well_formed_utf16 (c # cs) =
     (if 55296 \<le> c \<and> c \<le> 56319
      then (case cs of [] \<Rightarrow> False | d # ds \<Rightarrow> 56320 \<le> d \<and> d \<le> 57343 \<and> well_formed_utf16 ds)
      else if 56320 \<le> c \<and> c \<le> 57343 then False
      else well_formed_utf16 cs)"

text \<open>\<open>s.split(sep)\<close> for a separator of one code unit.\<close>

fun split_on :: "nat \<Rightarrow> jsstring \<Rightarrow> jsstring list" where
  "split_on sep [] = [[]]"
| "split_on sep (c # cs) =
     (if c = sep then [] # split_on sep cs
      else (case split_on sep cs of [] \<Rightarrow> [[c]] | p # ps \<Rightarrow> (c # p) # ps))"

subsection \<open>Regular expressions\<close>

text \<open>
  The fragment of regular expressions that the source uses: literal code units, character
  classes given by ranges (\<open>\d\<close> is \<open>[0-9]\<close>), the negated class (\<open>\D\<close>), the
  anchors \<open>^\<close> and \<open>$\<close> (no multiline flag), sequencing and the counted repetition
  \<open>r{n}\<close>.  A matcher state is the position reached and the rest of the subject.
\<close>

datatype regex =
    Lit nat
  | Class "(nat \<times> nat) list"
  | NotClass "(nat \<times> nat) list"
  | Bol
  | Eol
  | Seq regex regex
  | Times nat regex

definition in_ranges :: "(nat \<times> nat) list \<Rightarrow> nat \<Rightarrow> bool" where
  "in_ranges rs c \<longleftrightarrow> list_ex (\<lambda>(lo, hi). lo \<le> c \<and> c \<le> hi) rs"

fun rx_char :: "(nat \<Rightarrow> bool) \<Rightarrow> nat \<times> jsstring \<Rightarrow> (nat \<times> jsstring) list" where
  "rx_char P (p, []) = []"
| "rx_char P (p, c # cs) = (if P c then [(Suc p, cs)] else [])"

primrec rx_iter :: "nat \<Rightarrow> ('a \<Rightarrow> 'a list) \<Rightarrow> 'a \<Rightarrow> 'a list" where
  "rx_iter 0 f x = [x]"
| "rx_iter (Suc n) f x = concat (map (rx_iter n f) (f x))"

primrec rx_step :: "regex \<Rightarrow> nat \<times> jsstring \<Rightarrow> (nat \<times> jsstring) list" where
  "rx_step (Lit c) = rx_char (\<lambda>d. d = c)"
| "rx_step (Class rs) = rx_char (in_ranges rs)"
| "rx_step (NotClass rs) = rx_char (\<lambda>d. \<not> in_ranges rs d)"
| "rx_step Bol = (\<lambda>x. if fst x = 0 then [x] else [])"
| "rx_step Eol = (\<lambda>x. if snd x = [] then [x] else [])"
| "rx_step (Seq a b) = (\<lambda>x. concat (map (rx_step b) (rx_step a x)))"
| "rx_step (Times n a) = rx_iter n (rx_step a)"

text \<open>\<open>r.test(s)\<close>: the expression matches at some start position of the subject.\<close>

definition rx_test :: "regex \<Rightarrow> jsstring \<Rightarrow> bool" where
  "rx_test r s \<longleftrightarrow> list_ex (\<lambda>i. rx_step r (i, drop i s) \<noteq> []) [0..<Suc (length s)]"

text \<open>
  \<open>s.replace(/C/g, rep)\<close> for a pattern \<open>C\<close> that is a single character class:
  every code unit of the class is replaced.
\<close>

definition replace_class_global :: "(nat \<Rightarrow> bool) \<Rightarrow> jsstring \<Rightarrow> jsstring \<Rightarrow> jsstring" where
  "replace_class_global P rep s = concat (map (\<lambda>c. if P c then rep else [c]) s)"

abbreviation digit_class :: regex where
  "digit_class \<equiv> Class [(48, 57)]"

abbreviation non_digit :: "nat \<Rightarrow> bool" where
  "non_digit c \<equiv> \<not> in_ranges [(48, 57)] c"

text \<open>\<open>/\d{4}-\d{2}-\d{2}/\<close> and \<open>/\d{2}\/\d{2}\/\d{4}/\<close>, the two date shapes of \<open>addChildGroup\<close>.\<close>

definition isoDateRegex :: regex where
  "isoDateRegex =
     Seq (Times 4 digit_class) (Seq (Lit 45) (Seq (Times 2 digit_class)
       (Seq (Lit 45) (Times 2 digit_class))))"

definition slashDateRegex :: regex where
  "slashDateRegex =
     Seq (Times 2 digit_class) (Seq (Lit 47) (Seq (Times 2 digit_class)
       (Seq (Lit 47) (Times 4 digit_class))))"

text \<open>\<open>/^[6-9][0-9]{9}$/\<close>, the expression of \<open>validateMobile\<close>.\<close>

definition mobileRegex :: regex where
  "mobileRegex = Seq Bol (Seq (Class [(54, 57)]) (Seq (Times 9 digit_class) Eol))"

text \<open>
  The pattern as the specification words it: exactly ten digits, the first one between
  6 and 9.
\<close>

definition mobile_pattern :: "jsstring \<Rightarrow> bool" where
  "mobile_pattern s \<longleftrightarrow>
     length s = 10 \<and> list_all isDigit s \<and> (case s of [] \<Rightarrow> False | c # _ \<Rightarrow> 54 \<le> c \<and> c \<le> 57)"

subsection \<open>Values of the lookup and submission responses\<close>

text \<open>
  A parsed JSON body.  A value of type \<open>json option\<close> is a JavaScript value, \<open>None\<close>
  being \<open>undefined\<close>.  An object holds its properties, under distinct names, as an
  association list; the numbers of a body are taken to be integers.
\<close>

datatype json =
    JNull
  | JBool bool
  | JNum int
  | JStr jsstring
  | JArr "json list"
  | JObj "(jsstring \<times> json) list"

datatype error =
    ReferenceError jsstring
  | TypeError
  | SyntaxError
  | URIError
  | Error jsstring

fun truthy :: "json option \<Rightarrow> bool" where
  "truthy None = False"
| "truthy (Some JNull) = False"
| "truthy (Some (JBool b)) = b"
| "truthy (Some (JNum n)) = (n \<noteq> 0)"
| "truthy (Some (JStr s)) = (s \<noteq> [])"
| "truthy (Some (JArr xs)) = True"
| "truthy (Some (JObj kvs)) = True"

text \<open>\<open>a || b\<close>.\<close>

definition or_js :: "json option \<Rightarrow> json option \<Rightarrow> json option" where
  "or_js a b = (if truthy a then a else b)"

text \<open>
  \<open>v.k\<close> for a value \<open>v\<close> that is neither \<open>null\<close> nor \<open>undefined\<close>, and a
  property name \<open>k\<close> that only an object of the response can own.
\<close>

fun get_prop :: "jsstring \<Rightarrow> json \<Rightarrow> json option" where
  "get_prop k (JObj kvs) = map_of kvs k"
| "get_prop k v = None"

definition int_to_string :: "int \<Rightarrow> jsstring" where
  "int_to_string i = (if i < 0 then 45 # nat_to_string (nat (- i)) else nat_to_string (nat i))"

text \<open>\<open>String(v)\<close>; an array joins its elements with a comma, \<open>null\<close> ones as empty.\<close>

fun to_string :: "json option \<Rightarrow> jsstring" where
  "to_string None = js ''undefined''"
| "to_string (Some JNull) = js ''null''"
| "to_string (Some (JBool b)) = (if b then js ''true'' else js ''false'')"
| "to_string (Some (JNum n)) = int_to_string n"
| "to_string (Some (JStr s)) = s"
| "to_string (Some (JArr xs)) =
     join (js '','') (map (\<lambda>x. if x = JNull then [] else to_string (Some x)) xs)"
| "to_string (Some (JObj kvs)) = js ''[object Object]''"

section \<open>Dates\<close>

text \<open>
  Time values are milliseconds since the epoch, in UTC.  \<open>DayFromYear\<close>,
  \<open>InLeapYear\<close> and \<open>MakeDay\<close> are the day arithmetic of the language: \<open>MakeDay\<close>
  takes a year, a month counted from 0 and a day of the month, and lets a month or a day
  out of range run over into the next ones.
\<close>

definition msPerDay :: int where
  "msPerDay = 86400000"

definition DayFromYear :: "int \<Rightarrow> int" where
  "DayFromYear y = 365 * (y - 1970) + (y - 1969) div 4 - (y - 1901) div 100 + (y - 1601) div 400"

definition InLeapYear :: "int \<Rightarrow> bool" where
  "InLeapYear y \<longleftrightarrow> (y mod 4 = 0 \<and> y mod 100 \<noteq> 0) \<or> y mod 400 = 0"

definition DaysInMonth :: "int \<Rightarrow> nat \<Rightarrow> int" where
  "DaysInMonth y m =
     (if m = 1 then (if InLeapYear y then 29 else 28)
      else if m \<in> set [3, 5, 8, 10] then 30 else 31)"

definition MonthStart :: "int \<Rightarrow> nat \<Rightarrow> int" where
  "MonthStart y m = sum_list (map (DaysInMonth y) [0..<m])"

definition MakeDay :: "int \<Rightarrow> int \<Rightarrow> int \<Rightarrow> int" where
  "MakeDay year month date =
     (let ym = year + month div 12; mn = nat (month mod 12)
      in DayFromYear ym + MonthStart ym mn + date - 1)"

text \<open>
  What the page reads from its surroundings: the calendar fields of \<open>new Date()\<close> in
  local time (year, month from 0, day of the month), at page load and at validation; the
  offset of local time from UTC in milliseconds, for a local time value; what
  \<open>Date.parse\<close> answers on a string that is not a calendar date written
  \<open>YYYY-MM-DD\<close>, which the language leaves to the browser (\<open>None\<close> is \<open>NaN\<close>);
  and the image that the signature pad exports.
\<close>

record env =
  loadDate :: "int \<times> int \<times> int"
  today :: "int \<times> int \<times> int"
  localTZA :: "int \<Rightarrow> int"
  implParse :: "jsstring \<Rightarrow> int option"
  signatureDataURL :: jsstring

text \<open>
  \<open>new Date(y, m, d)\<close>: midnight of that day in local time.  A year from 0 to 99
  counts from 1900.
\<close>

definition localDate :: "env \<Rightarrow> int \<Rightarrow> int \<Rightarrow> int \<Rightarrow> int" where
  "localDate e y m d =
     (let yr = (if 0 \<le> y \<and> y \<le> 99 then 1900 + y else y);
          t = MakeDay yr m d * msPerDay
      in t - localTZA e t)"

definition digits_value :: "jsstring \<Rightarrow> int" where
  "digits_value s = foldl (\<lambda>a c. 10 * a + (int c - 48)) 0 s"

text \<open>
  \<open>new Date(s)\<close> for a string: a calendar date written \<open>YYYY-MM-DD\<close> is midnight
  of that day in UTC; every other string is left to the browser.
\<close>

definition isoCalendarDate :: "jsstring \<Rightarrow> (int \<times> int \<times> int) option" where
  "isoCalendarDate s =
     (if length s = 10 \<and> s ! 4 = 45 \<and> s ! 7 = 45
         \<and> list_all isDigit (take 4 s) \<and> list_all isDigit (take 2 (drop 5 s))
         \<and> list_all isDigit (drop 8 s)
      then (let y = digits_value (take 4 s); m = digits_value (take 2 (drop 5 s));
                d = digits_value (drop 8 s)
            in if 1 \<le> m \<and> m \<le> 12 \<and> 1 \<le> d \<and> d \<le> DaysInMonth y (nat (m - 1))
               then Some (y, m, d) else None)
      else None)"

definition parseDate :: "env \<Rightarrow> jsstring \<Rightarrow> int option" where
  "parseDate e s =
     (case isoCalendarDate s of
        Some (y, m, d) \<Rightarrow> Some (MakeDay y (m - 1) d * msPerDay)
      | None \<Rightarrow> implParse e s)"

section \<open>The page\<close>

text \<open>
  The Flatpickr configuration that \<open>setupDatePicker\<close> attaches to a date input.
\<close>

record picker =
  dateFormat :: jsstring
  maxDate :: int
  defaultDate :: "json option"

record input =
  inp_id :: jsstring
  inp_value :: jsstring
  inp_placeholder :: jsstring
  inp_required :: bool
  inp_readOnly :: bool
  inp_picker :: "picker option"

text \<open>
  The elements that make up a child group: the header (class \<open>child-header\<close>) with its
  text, a label with its text, an input, the hint under the date label, a button with its
  \<open>type\<close>, its text and its \<open>style.display\<close>, and an error span (class
  \<open>child-error\<close>) with its text.
\<close>

datatype elem =
    Header jsstring
  | Label jsstring
  | Input input
  | Hint jsstring
  | Button jsstring jsstring jsstring
  | ErrorSpan jsstring

text \<open>A child group (class \<open>child-group\<close>): its \<open>dataset.index\<close> and its children.\<close>

record child_group =
  dataset_index :: jsstring
  elems :: "elem list"

text \<open>
  A child of \<open>childrenContainer\<close>: a child group, or the error that
  \<open>validateChildren\<close> puts below the groups (class \<open>child-error\<close>).
\<close>

datatype node =
    Group child_group
  | ErrorDiv jsstring

text \<open>The body of the submission: \<open>{ parentName, mobile, children, signature }\<close>.\<close>

record child_data =
  legalname :: jsstring
  displayname :: jsstring
  dob :: jsstring

record payload =
  p_parentName :: jsstring
  p_mobile :: jsstring
  p_children :: "child_data list"
  p_signature :: jsstring

text \<open>
  A call of \<open>fetch\<close>: the lookup, with the mobile number that its query holds encoded,
  or the submission, with its body.
\<close>

datatype request =
    GetConsent jsstring
  | PostConsent payload

text \<open>
  The blocking alerts of the submission handler: the signature is missing; the mobile
  number is missing; the form was already submitted today; \<open>Submission failed:\<close> with
  the message of the backend; and \<open>An error occurred while submitting your consent:\<close> with
  the error caught.
\<close>

datatype alert =
    SignatureMissing
  | MobileMissing
  | AlreadySubmitted
  | SubmissionFailed jsstring
  | SubmitError error

text \<open>
  The state of the page: the step shown (0 when none is), the fields of the first two
  steps with their error elements, the children container, the flag
  \<open>isExistingCustomer\<close>, the consent text of the third step, whether the signature pad is
  empty, the finish button, and what the page has done to the outside: the alerts shown,
  the requests sent, and the mobile number that the address of the completion page holds
  encoded, once the page has navigated there.
\<close>

record state =
  activeStep :: nat
  mobileNumberValue :: jsstring
  mobileNumberErrorText :: jsstring
  mobileNumberErrorDisplay :: jsstring
  parentNameValue :: jsstring
  parentNameReadOnly :: bool
  parentNameErrorText :: jsstring
  parentNameErrorDisplay :: jsstring
  parentNameSectionDisplay :: jsstring
  childrenContainer :: "node list"
  isExistingCustomer :: bool
  consentText :: jsstring
  signatureEmpty :: bool
  finishBtnDisabled :: bool
  finishBtnText :: jsstring
  alerts :: "alert list"
  requests :: "request list"
  completion :: "jsstring option"

subsection \<open>Messages\<close>

definition invalidMobileMsg :: jsstring where
  "invalidMobileMsg =
     js ''Please enter a valid 10'' @ [8209] @ js ''digit Indian mobile number starting with 6''
       @ [8211] @ js ''9.''"

definition missingNameMsg :: jsstring where
  "missingNameMsg = js ''Please enter your name.''"

definition noChildMsg :: jsstring where
  "noChildMsg = js ''Please add at least one child.''"

definition missingFieldsMsg :: jsstring where
  "missingFieldsMsg = js ''Please enter legal name and date of birth.''"

definition invalidDateMsg :: jsstring where
  "invalidDateMsg = js ''Please select a valid date.''"

definition tooYoungMsg :: jsstring where
  "tooYoungMsg = js ''Child must be at least 2 years old.''"

subsection \<open>Steps and the mobile number\<close>

definition showStep :: "nat \<Rightarrow> state \<Rightarrow> state" where
  "showStep stepIndex st = st\<lparr>activeStep := (if stepIndex \<in> set [1, 2, 3] then stepIndex else 0)\<rparr>"

text \<open>
  The reset that the input handler of the mobile field, the lookup handler and the way
  back to the first step share.
\<close>

definition clearPrefill :: "state \<Rightarrow> state" where
  "clearPrefill st =
     st\<lparr>isExistingCustomer := False, parentNameReadOnly := False, parentNameValue := [],
        childrenContainer := []\<rparr>"

text \<open>
  The \<open>input\<close> event of the mobile field.  The browser has put the typed text into the
  field; the handler rewrites it.
\<close>

definition mobileNumberInput_input :: "state \<Rightarrow> state" where
  "mobileNumberInput_input st =
     clearPrefill
       (st\<lparr>mobileNumberValue := slice0 10 (replace_class_global non_digit [] (mobileNumberValue st))\<rparr>)"

definition validateMobile :: "state \<Rightarrow> bool \<times> state" where
  "validateMobile st =
     (let mobile = trim (mobileNumberValue st);
          st1 = st\<lparr>mobileNumberErrorDisplay := js ''none''\<rparr>
      in if \<not> rx_test mobileRegex mobile
         then (False, st1\<lparr>mobileNumberErrorText := invalidMobileMsg,
                          mobileNumberErrorDisplay := js ''block''\<rparr>)
         else (True, st1))"

definition validateParentNameIfNeeded :: "state \<Rightarrow> bool \<times> state" where
  "validateParentNameIfNeeded st =
     (let st1 = st\<lparr>parentNameErrorDisplay := js ''none''\<rparr>
      in if isExistingCustomer st1 then (True, st1)
         else if trim (parentNameValue st1) = []
         then (False, st1\<lparr>parentNameErrorText := missingNameMsg,
                          parentNameErrorDisplay := js ''block''\<rparr>)
         else (True, st1))"

subsection \<open>Child groups\<close>

text \<open>
  The selectors of the source, as predicates on the elements of a group:
  \<open>.child-header\<close>, \<open>input[id^='p']\<close>, \<open>button[type="button"]\<close> and
  \<open>.child-error\<close>.
\<close>

fun is_header :: "elem \<Rightarrow> bool" where
  "is_header (Header t) = True"
| "is_header e = False"

fun is_input_with_id :: "jsstring \<Rightarrow> elem \<Rightarrow> bool" where
  "is_input_with_id p (Input i) = startsWith p (inp_id i)"
| "is_input_with_id p e = False"

fun is_button :: "elem \<Rightarrow> bool" where
  "is_button (Button ty t d) = (ty = js ''button'')"
| "is_button e = False"

fun is_child_error :: "elem \<Rightarrow> bool" where
  "is_child_error (ErrorSpan t) = True"
| "is_child_error e = False"

text \<open>
  The three prefixes of the identifiers of the inputs of a group, which the selectors
  \<open>input[id^='childName']\<close>, \<open>input[id^='childDisplayName']\<close> and
  \<open>input[id^='childDOB']\<close> look for.
\<close>

definition childNameId :: jsstring where
  "childNameId = js ''childName''"

definition childDisplayNameId :: jsstring where
  "childDisplayNameId = js ''childDisplayName''"

definition childDOBId :: jsstring where
  "childDOBId = js ''childDOB''"

text \<open>
  \<open>group.querySelector(sel)\<close>: the first element that the selector matches, here by its
  position among the children of the group, or \<open>None\<close> for \<open>null\<close>.
\<close>

fun querySelector :: "('a \<Rightarrow> bool) \<Rightarrow> 'a list \<Rightarrow> nat option" where
  "querySelector P [] = None"
| "querySelector P (e # es) = (if P e then Some 0 else map_option Suc (querySelector P es))"

text \<open>An assignment to a property of the element found, guarded by \<open>if (found)\<close>.\<close>

definition update_found :: "nat option \<Rightarrow> ('a \<Rightarrow> 'a) \<Rightarrow> 'a list \<Rightarrow> 'a list" where
  "update_found found f es = (case found of None \<Rightarrow> es | Some i \<Rightarrow> es[i := f (es ! i)])"

fun set_text :: "jsstring \<Rightarrow> elem \<Rightarrow> elem" where
  "set_text t (Header u) = Header t"
| "set_text t e = e"

fun set_id :: "jsstring \<Rightarrow> elem \<Rightarrow> elem" where
  "set_id s (Input i) = Input (i\<lparr>inp_id := s\<rparr>)"
| "set_id s e = e"

fun set_display :: "jsstring \<Rightarrow> elem \<Rightarrow> elem" where
  "set_display d (Button ty t u) = Button ty t d"
| "set_display d e = e"

text \<open>\<open>childrenContainer.querySelectorAll('.child-group')\<close>.\<close>

fun groups_of :: "node list \<Rightarrow> child_group list" where
  "groups_of [] = []"
| "groups_of (Group g # ns) = g # groups_of ns"
| "groups_of (ErrorDiv t # ns) = groups_of ns"

text \<open>
  The body of the loop of \<open>reindexChildren\<close> for the group that gets the number \<open>n\<close>.
  The three inputs are looked up before any of their identifiers is assigned.
\<close>

definition reindex_group :: "nat \<Rightarrow> child_group \<Rightarrow> child_group" where
  "reindex_group n g =
     (let es1 = update_found (querySelector is_header (elems g))
                  (set_text (js ''Child '' @ nat_to_string n)) (elems g);
          nameInput = querySelector (is_input_with_id childNameId) es1;
          displayNameInput = querySelector (is_input_with_id childDisplayNameId) es1;
          dobInput = querySelector (is_input_with_id childDOBId) es1;
          es2 = update_found nameInput (set_id (childNameId @ nat_to_string n)) es1;
          es3 = update_found displayNameInput (set_id (childDisplayNameId @ nat_to_string n)) es2;
          es4 = update_found dobInput (set_id (childDOBId @ nat_to_string n)) es3;
          es5 = update_found (querySelector is_button es4)
                  (set_display (if n = 1 then js ''none'' else [])) es4
      in g\<lparr>dataset_index := nat_to_string n, elems := es5\<rparr>)"

text \<open>
  The loop of \<open>reindexChildren\<close> over the groups of the container; \<open>i\<close> is the index
  that \<open>forEach\<close> passes for the next group.
\<close>

fun reindex_nodes :: "nat \<Rightarrow> node list \<Rightarrow> node list" where
  "reindex_nodes i [] = []"
| "reindex_nodes i (Group g # ns) = Group (reindex_group (i + 1) g) # reindex_nodes (i + 1) ns"
| "reindex_nodes i (ErrorDiv t # ns) = ErrorDiv t # reindex_nodes i ns"

definition reindexChildren :: "state \<Rightarrow> state" where
  "reindexChildren st = st\<lparr>childrenContainer := reindex_nodes 0 (childrenContainer st)\<rparr>"

text \<open>\<open>childrenContainer.removeChild(group)\<close> for the \<open>k\<close>-th group, counted from 1.\<close>

fun remove_group :: "nat \<Rightarrow> node list \<Rightarrow> node list" where
  "remove_group k [] = []"
| "remove_group k (ErrorDiv t # ns) = ErrorDiv t # remove_group k ns"
| "remove_group k (Group g # ns) = (if k = 1 then ns else Group g # remove_group (k - 1) ns)"

text \<open>
  The click on the remove button of the \<open>k\<close>-th group (lines 228 to 231): the group
  leaves the container and the rest is reindexed.  There is no such button to click when
  the container has fewer than \<open>k\<close> groups.
\<close>

definition removeBtn_click :: "nat \<Rightarrow> state \<Rightarrow> state" where
  "removeBtn_click k st =
     (if 1 \<le> k \<and> k \<le> length (groups_of (childrenContainer st))
      then reindexChildren (st\<lparr>childrenContainer := remove_group k (childrenContainer st)\<rparr>)
      else st)"

subsection \<open>Adding a child group\<close>

text \<open>
  \<open>setupDatePicker(input, defaultValue)\<close>: the date picker is attached with the format
  \<open>Y-m-d\<close>, the latest date two years before the day the page was loaded, and the
  default \<open>defaultValue || undefined\<close>.
\<close>

definition setupDatePicker :: "env \<Rightarrow> json option \<Rightarrow> input \<Rightarrow> input" where
  "setupDatePicker e defaultValue i =
     (case loadDate e of (y, m, d) \<Rightarrow>
        i\<lparr>inp_picker := Some \<lparr>dateFormat = js ''Y-m-d'', maxDate = localDate e (y - 2) m d,
                               defaultDate = or_js defaultValue None\<rparr>\<rparr>)"

text \<open>The \<open>i\<close>-th variable of the destructuring \<open>[dd, mm, yyyy] = parts\<close>, as a value.\<close>

definition part :: "jsstring list \<Rightarrow> nat \<Rightarrow> json option" where
  "part ps i = (if i < length ps then Some (JStr (ps ! i)) else None)"

text \<open>
  Lines 213 to 221: the date that prefills the picker.  A value that has no \<open>split\<close>
  method raises.
\<close>

definition prepopDate :: "json \<Rightarrow> error + json option" where
  "prepopDate child =
     (let dob = get_prop (js ''dob'') child
      in if truthy dob then
           (if rx_test isoDateRegex (to_string dob) then Inr dob
            else if rx_test slashDateRegex (to_string dob) then
              (case dob of
                 Some (JStr s) \<Rightarrow>
                   (let ps = split_on 47 s
                    in Inr (Some (JStr (to_string (part ps 2) @ js ''-'' @ to_string (part ps 1)
                                         @ js ''-'' @ to_string (part ps 0)))))
               | _ \<Rightarrow> Inl TypeError)
            else Inr None)
         else Inr None)"

text \<open>
  The group that \<open>addChildGroup(child)\<close> builds (lines 153 to 247) for a child that is
  not \<open>null\<close>: its header, the labels and inputs of the legal name, the display name
  and the date of birth, the hint, and the remove button, which is hidden on the first
  group.
\<close>

definition new_child_group :: "env \<Rightarrow> json \<Rightarrow> json option \<Rightarrow> elem \<Rightarrow> nat \<Rightarrow> child_group" where
  "new_child_group e child prepop hint groupIndex =
     (let n = nat_to_string groupIndex;
          legalName = or_js (or_js (or_js (get_prop (js ''legalName'') child)
                         (get_prop (js ''legalname'') child)) (get_prop (js ''name'') child))
                         (Some (JStr []));
          nameInput = \<lparr>inp_id = childNameId @ n, inp_value = to_string legalName,
             inp_placeholder = to_string (or_js legalName
                (Some (JStr (js ''Child'' @ [39] @ js ''s legal full name'')))),
             inp_required = True, inp_readOnly = False, inp_picker = None\<rparr>;
          displayName = or_js (or_js (or_js (or_js (or_js
                         (get_prop (js ''displayName'') child)
                         (get_prop (js ''displayname'') child))
                         (get_prop (js ''displayName'') child))
                         (get_prop (js ''nick_name'') child))
                         (get_prop (js ''nickname'') child))
                         (Some (JStr []));
          displayNameInput = \<lparr>inp_id = childDisplayNameId @ n,
             inp_value = to_string displayName,
             inp_placeholder = to_string (or_js displayName
                (Some (JStr (js ''Child'' @ [39] @ js ''s nickname or preferred name'')))),
             inp_required = False, inp_readOnly = False, inp_picker = None\<rparr>;
          dobInput = \<lparr>inp_id = childDOBId @ n, inp_value = [],
             inp_placeholder = js ''dd/mm/yyyy'', inp_required = True, inp_readOnly = True,
             inp_picker = None\<rparr>
      in \<lparr>dataset_index = n,
          elems = [Header (js ''Child '' @ n),
             Label (js ''Legal Name''), Input nameInput,
             Label (js ''Display Name''), Input displayNameInput,
             Label (js ''Date of Birth''), hint,
             Input (setupDatePicker e prepop dobInput),
             Button (js ''button'') (js ''Remove'')
               (if groupIndex = 1 then js ''none'' else [])]\<rparr>)"

text \<open>
  \<open>addChildGroup(child)\<close>, for what the identifier \<open>dobHint\<close> of line 239 resolves
  to: an element, or \<open>None\<close> when the identifier is unbound, and then its read raises.
  For the argument, \<open>None\<close> is the call without one, for which the parameter defaults
  to \<open>{}\<close>.  The properties of a \<open>null\<close> child cannot be read (line 172); the date
  that prefills the picker may raise (line 218).  The group is built detached, and joins
  the container at line 242 only; the read of \<open>dobHint\<close> at line 239 comes before.
\<close>

definition addChildGroup_with ::
  "elem option \<Rightarrow> env \<Rightarrow> json option \<Rightarrow> state \<Rightarrow> (error + unit) \<times> state" where
  "addChildGroup_with binding e arg st =
     (let child = (case arg of None \<Rightarrow> JObj [] | Some c \<Rightarrow> c);
          groupIndex = length (groups_of (childrenContainer st)) + 1
      in if child = JNull then (Inl TypeError, st)
         else
           (case prepopDate child of
              Inl err \<Rightarrow> (Inl err, st)
            | Inr prepop \<Rightarrow>
                (case binding of
                   None \<Rightarrow> (Inl (ReferenceError (js ''dobHint'')), st)
                 | Some hint \<Rightarrow>
                     (Inr (),
                      st\<lparr>childrenContainer := childrenContainer st
                            @ [Group (new_child_group e child prepop hint groupIndex)]\<rparr>))))"

text \<open>
  What \<open>dobHint\<close> resolves to in the file.  Its only declaration, at lines 198 to
  203, is commented out, and no other scope of the file declares it: the identifier is
  unbound.
\<close>

definition dobHint :: "elem option" where
  "dobHint = None"

definition addChildGroup :: "env \<Rightarrow> json option \<Rightarrow> state \<Rightarrow> (error + unit) \<times> state" where
  "addChildGroup e arg st = addChildGroup_with dobHint e arg st"

text \<open>The click on the add button.\<close>

definition addChildBtn_click :: "env \<Rightarrow> state \<Rightarrow> (error + unit) \<times> state" where
  "addChildBtn_click e st = addChildGroup e None st"

subsection \<open>Reading and validating the children\<close>

text \<open>
  The value of the first input of a group whose identifier starts with \<open>p\<close>; reading
  the value of \<open>null\<close> raises.
\<close>

definition input_value :: "jsstring \<Rightarrow> child_group \<Rightarrow> error + jsstring" where
  "input_value p g =
     (case querySelector (is_input_with_id p) (elems g) of
        None \<Rightarrow> Inl TypeError
      | Some i \<Rightarrow> (case elems g ! i of Input inp \<Rightarrow> Inr (inp_value inp) | _ \<Rightarrow> Inl TypeError))"

text \<open>The body of the loop of \<open>getChildData\<close>.\<close>

definition child_data_of :: "child_group \<Rightarrow> error + child_data" where
  "child_data_of g =
     (case input_value childNameId g of
        Inl err \<Rightarrow> Inl err
      | Inr name \<Rightarrow>
          (case input_value childDisplayNameId g of
             Inl err \<Rightarrow> Inl err
           | Inr display \<Rightarrow>
               (case input_value childDOBId g of
                  Inl err \<Rightarrow> Inl err
                | Inr d \<Rightarrow> Inr \<lparr>legalname = trim name, displayname = trim display, dob = d\<rparr>)))"

fun collect :: "child_group list \<Rightarrow> error + child_data list" where
  "collect [] = Inr []"
| "collect (g # gs) =
     (case child_data_of g of
        Inl err \<Rightarrow> Inl err
      | Inr d \<Rightarrow> (case collect gs of Inl err \<Rightarrow> Inl err | Inr ds \<Rightarrow> Inr (d # ds)))"

definition getChildData :: "state \<Rightarrow> error + child_data list" where
  "getChildData st = collect (groups_of (childrenContainer st))"

text \<open>
  \<open>childrenContainer.querySelectorAll('.child-error').forEach(el => el.remove())\<close>:
  the error below the groups and the error spans inside them go.
\<close>

fun remove_errors :: "node list \<Rightarrow> node list" where
  "remove_errors [] = []"
| "remove_errors (ErrorDiv t # ns) = remove_errors ns"
| "remove_errors (Group g # ns) =
     Group (g\<lparr>elems := filter (\<lambda>x. \<not> is_child_error x) (elems g)\<rparr>) # remove_errors ns"

definition append_error :: "jsstring \<Rightarrow> child_group \<Rightarrow> child_group" where
  "append_error msg g = g\<lparr>elems := elems g @ [ErrorSpan msg]\<rparr>"

text \<open>
  The body of the loop of \<open>validateChildren\<close> (lines 291 to 319) for one group: whether
  the group passes, and the group with the error it may have received.
\<close>

definition validate_group :: "env \<Rightarrow> child_group \<Rightarrow> error + bool \<times> child_group" where
  "validate_group e g =
     (case input_value childNameId g of
        Inl err \<Rightarrow> Inl err
      | Inr name \<Rightarrow>
          if trim name = [] then Inr (False, append_error missingFieldsMsg g)
          else
            (case input_value childDOBId g of
               Inl err \<Rightarrow> Inl err
             | Inr d \<Rightarrow>
                 if d = [] then Inr (False, append_error missingFieldsMsg g)
                 else
                   (case today e of (y, m, dd) \<Rightarrow>
                      (let twoYearsAgo = localDate e (y - 2) m dd
                       in case parseDate e d of
                            None \<Rightarrow> Inr (False, append_error invalidDateMsg g)
                          | Some dobDate \<Rightarrow>
                              if dobDate > twoYearsAgo
                              then Inr (False, append_error tooYoungMsg g)
                              else Inr (True, g)))))"

text \<open>
  The loop over the groups, with the flag \<open>valid\<close> so far.  An exception leaves the
  groups already visited as they are by then.
\<close>

fun validate_nodes :: "env \<Rightarrow> bool \<Rightarrow> node list \<Rightarrow> (error + bool) \<times> node list" where
  "validate_nodes e valid [] = (Inr valid, [])"
| "validate_nodes e valid (ErrorDiv t # ns) =
     (case validate_nodes e valid ns of (r, ns') \<Rightarrow> (r, ErrorDiv t # ns'))"
| "validate_nodes e valid (Group g # ns) =
     (case validate_group e g of
        Inl err \<Rightarrow> (Inl err, Group g # ns)
      | Inr (ok, g') \<Rightarrow>
          (case validate_nodes e (valid \<and> ok) ns of (r, ns') \<Rightarrow> (r, Group g' # ns')))"

definition validateChildren :: "env \<Rightarrow> state \<Rightarrow> (error + bool) \<times> state" where
  "validateChildren e st =
     (let groups = groups_of (childrenContainer st);
          st1 = st\<lparr>childrenContainer := remove_errors (childrenContainer st)\<rparr>
      in if length groups = 0 then
           (case addChildGroup e None st1 of
              (Inl err, st2) \<Rightarrow> (Inl err, st2)
            | (Inr u, st2) \<Rightarrow>
                (Inr False, st2\<lparr>childrenContainer := childrenContainer st2 @ [ErrorDiv noChildMsg]\<rparr>))
         else
           (case validate_nodes e True (childrenContainer st1) of
              (r, ns) \<Rightarrow> (r, st1\<lparr>childrenContainer := ns\<rparr>)))"

subsection \<open>The consent text\<close>

definition consentHead :: jsstring where
  "consentHead = js ''I, ''"

definition consentMiddle :: jsstring where
  "consentMiddle = js '', as the parent/guardian of ''"

definition consentTail :: jsstring where
  "consentTail =
     js '', hereby give consent for my child/children to participate in activities at LePlay ''
     @ [8211]
     @ js '' Little Engineers Playground, operated by FOREVER KID LLP. I acknowledge that participation involves inherent risks and agree that I will not hold the company liable for any injury or loss incurred while my child/children are on the premises. By signing below, I confirm that the information provided is accurate and that I have read and understood this consent form.''"

text \<open>
  The object that \<open>getChildData\<close> pushes for a group (lines 261 to 265):
  \<open>{ legalname, displayname, dob }\<close>.
\<close>

definition child_object :: "child_data \<Rightarrow> json" where
  "child_object d =
     JObj [(js ''legalname'', JStr (legalname d)), (js ''displayname'', JStr (displayname d)),
           (js ''dob'', JStr (dob d))]"

text \<open>
  The name of one child in the text (lines 331 to 333), for any element of the array:
  \<open>c.legalname || c.name\<close>, with \<open>c.displayname\<close> in parentheses when that is truthy.
  The properties of \<open>null\<close> cannot be read.
\<close>

definition childName :: "json \<Rightarrow> error + json option" where
  "childName c =
     (if c = JNull then Inl TypeError
      else
        (let legalName = or_js (get_prop (js ''legalname'') c) (get_prop (js ''name'') c);
             displayName = get_prop (js ''displayname'') c
         in Inr (if truthy displayName
                 then Some (JStr (to_string legalName @ js '' ('' @ to_string displayName @ js '')''))
                 else legalName)))"

text \<open>\<open>children.map(c => ...)\<close>: the names in order, up to the first element that raises.\<close>

fun child_names :: "json list \<Rightarrow> error + json option list" where
  "child_names [] = Inr []"
| "child_names (c # cs) =
     (case childName c of
        Inl err \<Rightarrow> Inl err
      | Inr v \<Rightarrow> (case child_names cs of Inl err \<Rightarrow> Inl err | Inr vs \<Rightarrow> Inr (v # vs)))"

text \<open>\<open>xs.join(sep)\<close> on an array of values: \<open>undefined\<close> and \<open>null\<close> give nothing.\<close>

definition join_values :: "jsstring \<Rightarrow> json option list \<Rightarrow> jsstring" where
  "join_values sep vs =
     join sep (map (\<lambda>v. if v = None \<or> v = Some JNull then [] else to_string v) vs)"

definition composeConsentText :: "jsstring \<Rightarrow> json list \<Rightarrow> error + jsstring" where
  "composeConsentText parentName children =
     (case child_names children of
        Inl err \<Rightarrow> Inl err
      | Inr names \<Rightarrow>
          (let childNames = join_values (js '', '') names
           in Inr (consentHead @ parentName @ consentMiddle @ childNames @ consentTail)))"

subsection \<open>The lookup of an existing consent\<close>

text \<open>
  What the network answers to the lookup: \<open>fetch\<close> rejects, or a response arrives with
  its \<open>ok\<close> flag and its body as \<open>response.json()\<close> parses it (\<open>None\<close> when that
  rejects).
\<close>

datatype get_outcome =
    GetRejected
  | GetResponse bool "json option"

text \<open>The loop of \<open>populateExistingData\<close> over the children of the response.\<close>

fun add_all :: "env \<Rightarrow> json list \<Rightarrow> state \<Rightarrow> (error + unit) \<times> state" where
  "add_all e [] st = (Inr (), st)"
| "add_all e (c # cs) st =
     (case addChildGroup e (Some c) st of
        (Inl err, st1) \<Rightarrow> (Inl err, st1)
      | (Inr u, st1) \<Rightarrow> add_all e cs st1)"

definition clearChildren :: "state \<Rightarrow> state" where
  "clearChildren st = st\<lparr>childrenContainer := []\<rparr>"

definition populateExistingData :: "env \<Rightarrow> json option \<Rightarrow> state \<Rightarrow> (error + unit) \<times> state" where
  "populateExistingData e data st =
     (case data of
        None \<Rightarrow> (Inr (), st)
      | Some d \<Rightarrow>
          if \<not> truthy data then (Inr (), st)
          else
            (let st1 = (if truthy (get_prop (js ''parentName'') d)
                        then st\<lparr>parentNameValue := to_string (get_prop (js ''parentName'') d)\<rparr>
                        else st)
             in case get_prop (js ''children'') d of
                  Some (JArr cs) \<Rightarrow> add_all e cs (clearChildren st1)
                | _ \<Rightarrow> (Inr (), st1)))"

text \<open>
  \<open>fetchExistingConsent(mobile)\<close>, given what the network answers.  Every exception of
  its body is caught inside, so it returns a state only.
\<close>

definition fetchExistingConsent :: "env \<Rightarrow> jsstring \<Rightarrow> get_outcome \<Rightarrow> state \<Rightarrow> state" where
  "fetchExistingConsent e mobile outcome st =
     (let st1 = st\<lparr>requests := requests st @ [GetConsent mobile]\<rparr>
      in if \<not> well_formed_utf16 mobile then st\<lparr>isExistingCustomer := False\<rparr>
         else case outcome of
           GetRejected \<Rightarrow> st1\<lparr>isExistingCustomer := False\<rparr>
         | GetResponse ok body \<Rightarrow>
             if \<not> ok then st1
             else
               (case body of
                  None \<Rightarrow> st1\<lparr>isExistingCustomer := False\<rparr>
                | Some json \<Rightarrow>
                    if truthy (Some json) \<and> truthy (get_prop (js ''exists'') json)
                    then
                      (case populateExistingData e
                              (or_js (get_prop (js ''data'') json) (Some json))
                              (st1\<lparr>isExistingCustomer := True\<rparr>) of
                         (Inl err, st2) \<Rightarrow> st2\<lparr>isExistingCustomer := False\<rparr>
                       | (Inr u, st2) \<Rightarrow> st2)
                    else st1\<lparr>isExistingCustomer := False\<rparr>))"

text \<open>
  The click on the button that leads from the mobile number to the details (lines 411 to
  433), given what the network answers to the lookup.
\<close>

definition nextToDetailsBtn_click :: "env \<Rightarrow> get_outcome \<Rightarrow> state \<Rightarrow> (error + unit) \<times> state" where
  "nextToDetailsBtn_click e outcome st =
     (case validateMobile st of
        (False, st1) \<Rightarrow> (Inr (), st1)
      | (True, st1) \<Rightarrow>
          (let st2 = clearPrefill st1;
               mobile = trim (mobileNumberValue st2);
               st3 = fetchExistingConsent e mobile outcome st2;
               st4 = st3\<lparr>parentNameSectionDisplay := js ''block'',
                         parentNameReadOnly := isExistingCustomer st3\<rparr>
           in if length (childrenContainer st4) = 0
              then (case addChildGroup e None st4 of
                      (Inl err, st5) \<Rightarrow> (Inl err, st5)
                    | (Inr u, st5) \<Rightarrow> (Inr (), showStep 2 st5))
              else (Inr (), showStep 2 st4)))"

definition backToMobileBtn_click :: "state \<Rightarrow> state" where
  "backToMobileBtn_click st = showStep 1 (clearPrefill st)"

text \<open>
  The click on the button that leads from the details to the consent (lines 451 to 463).
  The resizing of the signature canvas at its end changes nothing of the state kept here.
\<close>

definition nextToConsentBtn_click :: "env \<Rightarrow> state \<Rightarrow> (error + unit) \<times> state" where
  "nextToConsentBtn_click e st =
     (case validateParentNameIfNeeded st of
        (False, st1) \<Rightarrow> (Inr (), st1)
      | (True, st1) \<Rightarrow>
          (case validateChildren e st1 of
             (Inl err, st2) \<Rightarrow> (Inl err, st2)
           | (Inr False, st2) \<Rightarrow> (Inr (), st2)
           | (Inr True, st2) \<Rightarrow>
               (case getChildData st2 of
                  Inl err \<Rightarrow> (Inl err, st2)
                | Inr children \<Rightarrow>
                    (case composeConsentText (trim (parentNameValue st2))
                            (map child_object children) of
                       Inl err \<Rightarrow> (Inl err, st2)
                     | Inr consent \<Rightarrow>
                         (Inr (), showStep 3 (st2\<lparr>consentText := consent\<rparr>))))))"

definition backToDetailsBtn_click :: "state \<Rightarrow> state" where
  "backToDetailsBtn_click st = showStep 2 st"

definition clearSignatureBtn_click :: "state \<Rightarrow> state" where
  "clearSignatureBtn_click st = st\<lparr>signatureEmpty := True\<rparr>"

subsection \<open>The submission\<close>

text \<open>
  What the network answers to the submission: \<open>fetch\<close> rejects with an error, or a
  response arrives with its \<open>ok\<close> flag, its status, its body as text, and its body as
  \<open>response.json()\<close> parses it (\<open>None\<close> when that rejects).
\<close>

datatype post_outcome =
    PostRejected error
  | PostResponse bool nat jsstring "json option"

text \<open>\<open>message.includes('already submitted')\<close> on a truthy value of the response.\<close>

definition message_includes :: "json option \<Rightarrow> jsstring \<Rightarrow> error + bool" where
  "message_includes v p =
     (case v of
        Some (JStr s) \<Rightarrow> Inr (str_includes p s)
      | Some (JArr xs) \<Rightarrow> Inr (JStr p \<in> set xs)
      | _ \<Rightarrow> Inl TypeError)"

text \<open>
  Lines 539 to 568, inside \<open>try\<close>: the alert or the navigation that a response leads to,
  or the exception raised on the way.
\<close>

definition handle_response :: "jsstring \<Rightarrow> post_outcome \<Rightarrow> state \<Rightarrow> (error + unit) \<times> state" where
  "handle_response mobile outcome st =
     (case outcome of
        PostRejected err \<Rightarrow> (Inl err, st)
      | PostResponse ok status errorText body \<Rightarrow>
          if \<not> ok
          then (Inl (Error (js ''Failed to submit consent: '' @ nat_to_string status @ js '' - ''
                             @ errorText)), st)
          else
            (case body of
               None \<Rightarrow> (Inl SyntaxError, st)
             | Some result \<Rightarrow>
                 if truthy (Some result) \<and> truthy (get_prop (js ''success'') result)
                 then (if well_formed_utf16 mobile then (Inr (), st\<lparr>completion := Some mobile\<rparr>)
                       else (Inl URIError, st))
                 else if result = JNull then (Inl TypeError, st)
                 else
                   (let message = get_prop (js ''message'') result
                    in if truthy message
                       then (case message_includes message (js ''already submitted'') of
                               Inl err \<Rightarrow> (Inl err, st)
                             | Inr True \<Rightarrow> (Inr (), st\<lparr>alerts := alerts st @ [AlreadySubmitted]\<rparr>)
                             | Inr False \<Rightarrow>
                                 (Inr (), st\<lparr>alerts := alerts st
                                    @ [SubmissionFailed (to_string message)]\<rparr>))
                       else (Inr (), st\<lparr>alerts := alerts st @ [SubmissionFailed
                               (js ''Unknown error. Please try again.'')]\<rparr>))))"

text \<open>
  The click on the finish button (lines 494 to 581), given what the network would answer
  to the submission.
\<close>

definition finishBtn_click :: "env \<Rightarrow> post_outcome \<Rightarrow> state \<Rightarrow> (error + unit) \<times> state" where
  "finishBtn_click e outcome st =
     (if signatureEmpty st then (Inr (), st\<lparr>alerts := alerts st @ [SignatureMissing]\<rparr>)
      else
        (let mobile = trim (mobileNumberValue st)
         in if mobile = [] then (Inr (), st\<lparr>alerts := alerts st @ [MobileMissing]\<rparr>)
            else
              (let parentName = trim (parentNameValue st)
               in case getChildData st of
                    Inl err \<Rightarrow> (Inl err, st)
                  | Inr children \<Rightarrow>
                      (let payload = \<lparr>p_parentName = parentName, p_mobile = mobile,
                                        p_children = children,
                                        p_signature = signatureDataURL e\<rparr>;
                           st1 = st\<lparr>finishBtnDisabled := True,
                                    finishBtnText := js ''Submitting'' @ [8230],
                                    requests := requests st @ [PostConsent payload]\<rparr>;
                           st3 = (case handle_response mobile outcome st1 of
                                    (Inl err, st2) \<Rightarrow> st2\<lparr>alerts := alerts st2 @ [SubmitError err]\<rparr>
                                  | (Inr u, st2) \<Rightarrow> st2)
                       in (Inr (), st3\<lparr>finishBtnDisabled := False,
                                        finishBtnText := js ''Finish''\<rparr>)))))"

subsection \<open>What a child group shows\<close>

text \<open>
  The text of the header of a group, the identifier of its input with a given prefix, and
  the \<open>style.display\<close> of its remove button, each as the selectors of the source find
  them.
\<close>

definition header_text :: "child_group \<Rightarrow> jsstring option" where
  "header_text g =
     (case querySelector is_header (elems g) of
        None \<Rightarrow> None
      | Some i \<Rightarrow> (case elems g ! i of Header t \<Rightarrow> Some t | _ \<Rightarrow> None))"

definition input_id :: "jsstring \<Rightarrow> child_group \<Rightarrow> jsstring option" where
  "input_id p g =
     (case querySelector (is_input_with_id p) (elems g) of
        None \<Rightarrow> None
      | Some i \<Rightarrow> (case elems g ! i of Input inp \<Rightarrow> Some (inp_id inp) | _ \<Rightarrow> None))"

definition remove_display :: "child_group \<Rightarrow> jsstring option" where
  "remove_display g =
     (case querySelector is_button (elems g) of
        None \<Rightarrow> None
      | Some i \<Rightarrow> (case elems g ! i of Button ty t d \<Rightarrow> Some d | _ \<Rightarrow> None))"

text \<open>
  A group has the parts that \<open>addChildGroup\<close> gives it: a header, the three inputs and
  the remove button.
\<close>

definition complete :: "child_group \<Rightarrow> bool" where
  "complete g \<longleftrightarrow>
     querySelector is_header (elems g) \<noteq> None
     \<and> querySelector (is_input_with_id childNameId) (elems g) \<noteq> None
     \<and> querySelector (is_input_with_id childDisplayNameId) (elems g) \<noteq> None
     \<and> querySelector (is_input_with_id childDOBId) (elems g) \<noteq> None
     \<and> querySelector is_button (elems g) \<noteq> None"

text \<open>
  A group carries the number \<open>n\<close>: in its \<open>dataset.index\<close>, in its display label
  \<open>Child n\<close>, and in the identifiers of its three inputs.
\<close>

definition numbered :: "nat \<Rightarrow> child_group \<Rightarrow> bool" where
  "numbered n g \<longleftrightarrow>
     dataset_index g = nat_to_string n
     \<and> header_text g = Some (js ''Child '' @ nat_to_string n)
     \<and> input_id childNameId g = Some (childNameId @ nat_to_string n)
     \<and> input_id childDisplayNameId g = Some (childDisplayNameId @ nat_to_string n)
     \<and> input_id childDOBId g = Some (childDOBId @ nat_to_string n)"

text \<open>What the user has entered into a group: the values of its three inputs.\<close>

definition entered :: "child_group \<Rightarrow> (error + jsstring) \<times> (error + jsstring) \<times> (error + jsstring)" where
  "entered g =
     (input_value childNameId g, input_value childDisplayNameId g, input_value childDOBId g)"

text \<open>
  Which of the selectors of \<open>reindexChildren\<close> match an element: the header, the three
  inputs, the button.
\<close>

definition shape :: "elem \<Rightarrow> bool \<times> bool \<times> bool \<times> bool \<times> bool" where
  "shape x = (is_header x, is_input_with_id childNameId x,
              is_input_with_id childDisplayNameId x,
              is_input_with_id childDOBId x, is_button x)"

text \<open>
  A group with the parts of lines 159 to 241 in the order in which they are appended, for
  given contents of its header, its inputs and its remove button.
\<close>

definition sampleGroup :: "jsstring \<Rightarrow> jsstring \<Rightarrow> jsstring \<Rightarrow> jsstring \<Rightarrow> jsstring \<Rightarrow> child_group" where
  "sampleGroup n name display d shown =
     \<lparr>dataset_index = n,
      elems = [Header (js ''Child '' @ n), Label (js ''Legal Name''),
         Input \<lparr>inp_id = childNameId @ n, inp_value = name, inp_placeholder = name,
                inp_required = True, inp_readOnly = False, inp_picker = None\<rparr>,
         Label (js ''Display Name''),
         Input \<lparr>inp_id = childDisplayNameId @ n, inp_value = display, inp_placeholder = display,
                inp_required = False, inp_readOnly = False, inp_picker = None\<rparr>,
         Label (js ''Date of Birth''),
         Input \<lparr>inp_id = childDOBId @ n, inp_value = d, inp_placeholder = js ''dd/mm/yyyy'',
                inp_required = True, inp_readOnly = True, inp_picker = None\<rparr>,
         Button (js ''button'') (js ''Remove'') shown]\<rparr>"

subsection \<open>A page to run the handlers on\<close>

text \<open>
  The page before anything is typed: the first step shown, every field empty, no child
  group, the signature pad empty.
\<close>

definition emptyPage :: state where
  "emptyPage =
     \<lparr>activeStep = 1, mobileNumberValue = [], mobileNumberErrorText = [],
      mobileNumberErrorDisplay = js ''none'', parentNameValue = [], parentNameReadOnly = False,
      parentNameErrorText = [], parentNameErrorDisplay = js ''none'',
      parentNameSectionDisplay = js ''none'', childrenContainer = [],
      isExistingCustomer = False, consentText = [], signatureEmpty = True,
      finishBtnDisabled = False, finishBtnText = js ''Finish'', alerts = [], requests = [],
      completion = None\<rparr>"

text \<open>The first step with a mobile number typed in.\<close>

definition typedPage :: state where
  "typedPage = emptyPage\<lparr>mobileNumberValue := js ''9876543210''\<rparr>"

text \<open>The second step with the name of the parent typed in and no child group.\<close>

definition namedPage :: state where
  "namedPage = emptyPage\<lparr>activeStep := 2, parentNameValue := js ''Asha''\<rparr>"

text \<open>
  The second step with one child whose date of birth, 5 November 2023, is the day two
  years before the day of \<open>sampleEnv\<close>.
\<close>

definition boundaryChild :: child_group where
  "boundaryChild = sampleGroup (js ''1'') (js ''Ravi'') [] (js ''2023-11-05'') (js ''none'')"

definition boundaryPage :: state where
  "boundaryPage =
     emptyPage\<lparr>activeStep := 2, mobileNumberValue := js ''9876543210'',
       parentNameValue := js ''Asha'', childrenContainer := [Group boundaryChild]\<rparr>"

text \<open>
  The second step with two children, one of them with a display name, both older than two
  years on the day of \<open>sampleEnv\<close>.
\<close>

definition raviChild :: child_group where
  "raviChild = sampleGroup (js ''1'') (js ''Ravi'') (js ''Ravu'') (js ''2020-01-01'') (js ''none'')"

definition miraChild :: child_group where
  "miraChild = sampleGroup (js ''2'') (js ''Mira'') [] (js ''2019-05-17'') []"

definition consentPage :: state where
  "consentPage =
     emptyPage\<lparr>activeStep := 2, mobileNumberValue := js ''9876543210'',
       parentNameValue := js ''Asha'',
       childrenContainer := [Group raviChild, Group miraChild]\<rparr>"

text \<open>
  The second step with three children, whose groups carry numbers that are out of order,
  the first of them with its remove button showing.
\<close>

definition samplePage :: state where
  "samplePage =
     emptyPage\<lparr>activeStep := 2, mobileNumberValue := js ''9876543210'',
       parentNameValue := js ''Asha'',
       childrenContainer :=
         [Group (sampleGroup (js ''7'') (js ''Ravi'') (js ''Ravu'') (js ''2020-01-01'') []),
          Group (sampleGroup (js ''3'') (js ''Mira'') [] (js ''2019-05-17'') (js ''none'')),
          Group (sampleGroup (js ''7'') (js ''Dev'') [] (js ''2021-11-30'') [])]\<rparr>"

text \<open>
  The surroundings of a page opened on 5 November 2025 in India: local time is five and a
  half hours ahead of UTC, and the browser parses no date but a calendar date written
  \<open>YYYY-MM-DD\<close>.
\<close>

definition sampleEnv :: env where
  "sampleEnv =
     \<lparr>loadDate = (2025, 10, 5), today = (2025, 10, 5), localTZA = (\<lambda>t. 19800000),
      implParse = (\<lambda>s. None), signatureDataURL = js ''data:image/png;base64,iVBORw0KGgo=''\<rparr>"

text \<open>
  The two shapes of the lookup response for an existing customer, wrapped in \<open>data\<close>
  and not:
  \<open>{exists: true, data: {parentName: "A", children: [{legalname: "B", dob: "2020-01-01"}]}}\<close>
  and \<open>{exists: true, parentName: "A", children: [{legalname: "B", dob: "2020-01-01"}]}\<close>;
  and the response for a number that has no consent stored, \<open>{exists: false}\<close>.
\<close>

definition storedChild :: json where
  "storedChild = JObj [(js ''legalname'', JStr (js ''B'')), (js ''dob'', JStr (js ''2020-01-01''))]"

definition storedData :: json where
  "storedData = JObj [(js ''parentName'', JStr (js ''A'')), (js ''children'', JArr [storedChild])]"

definition wrappedResponse :: json where
  "wrappedResponse = JObj [(js ''exists'', JBool True), (js ''data'', storedData)]"

definition unwrappedResponse :: json where
  "unwrappedResponse =
     JObj [(js ''exists'', JBool True), (js ''parentName'', JStr (js ''A'')),
           (js ''children'', JArr [storedChild])]"

definition newCustomerResponse :: json where
  "newCustomerResponse = JObj [(js ''exists'', JBool False)]"

subsection \<open>The words of the specification\<close>

text \<open>
  The name of a child in the consent text as the specification words it: the legal name,
  followed by the display name in parentheses exactly when a display name is present.
\<close>

definition name_as_specified :: "child_data \<Rightarrow> jsstring" where
  "name_as_specified c =
     legalname c @ (if displayname c \<noteq> [] then js '' ('' @ displayname c @ js '')'' else [])"

text \<open>
  A lookup that fails, as the specification lists it: the network fails, the response is
  not OK, or its body says that nothing exists; a body that does not parse goes the way
  of a network failure.
\<close>

definition lookup_fails :: "get_outcome \<Rightarrow> bool" where
  "lookup_fails outcome =
     (case outcome of
        GetRejected \<Rightarrow> True
      | GetResponse ok body \<Rightarrow>
          (if ok then (case body of None \<Rightarrow> True
                       | Some json \<Rightarrow> (if truthy (Some json)
                                       then (if truthy (get_prop (js ''exists'') json) then False else True)
                                       else True))
           else True))"

section \<open>Properties\<close>

subsection \<open>The mobile number\<close>

lemma isDigit_ranges: "in_ranges [(48, 57)] c \<longleftrightarrow> isDigit c"
  by (simp add: in_ranges_def isDigit_def)

lemma replace_non_digit_digits: "list_all isDigit (replace_class_global non_digit [] s)"
  by (induction s) (simp_all add: replace_class_global_def isDigit_ranges)

text \<open>
  C10.  After every \<open>input\<close> event on the mobile field, the value of the field consists of
  decimal digits only and is at most 10 long, and the prefill is reset with it: the flag
  \<open>isExistingCustomer\<close> is false, the parent name is empty and editable, and the
  children container is empty.
\<close>

theorem C10_mobile_input_sanitises_and_resets:
  "list_all isDigit (mobileNumberValue (mobileNumberInput_input st))
   \<and> length (mobileNumberValue (mobileNumberInput_input st)) \<le> 10
   \<and> isExistingCustomer (mobileNumberInput_input st) = False
   \<and> parentNameValue (mobileNumberInput_input st) = []
   \<and> parentNameReadOnly (mobileNumberInput_input st) = False
   \<and> childrenContainer (mobileNumberInput_input st) = []"
proof -
  have v: "mobileNumberValue (mobileNumberInput_input st)
             = take 10 (replace_class_global non_digit [] (mobileNumberValue st))"
    by (simp add: mobileNumberInput_input_def clearPrefill_def slice0_def)
  have "list_all isDigit (take 10 (replace_class_global non_digit [] (mobileNumberValue st)))"
    using replace_non_digit_digits [of "mobileNumberValue st"]
    by (auto simp: list_all_iff dest: in_set_takeD)
  with v show ?thesis
    by (simp add: mobileNumberInput_input_def clearPrefill_def)
qed

lemma rx_iter_char:
  "rx_iter n (rx_char P) (p, s)
     = (if n \<le> length s \<and> list_all P (take n s) then [(p + n, drop n s)] else [])"
proof (induction n arbitrary: p s)
  case 0
  show ?case by simp
next
  case (Suc n)
  show ?case
  proof (cases s)
    case Nil
    then show ?thesis by simp
  next
    case (Cons c cs)
    then show ?thesis using Suc.IH [of "Suc p" cs] by simp
  qed
qed

lemma rx_test_Bol:
  "rx_test (Seq Bol r) s \<longleftrightarrow> rx_step r (0, s) \<noteq> []"
proof -
  have "list_ex (\<lambda>i. rx_step (Seq Bol r) (i, drop i s) \<noteq> []) [0..<Suc (length s)]
          \<longleftrightarrow> (\<exists>i \<le> length s. i = 0 \<and> rx_step r (i, drop i s) \<noteq> [])"
    by (auto simp: list_ex_iff)
  then show ?thesis by (simp add: rx_test_def)
qed

lemma concat_map_if_single:
  "concat (map f (if b then [x] else [])) = (if b then f x else [])"
  by simp

lemma digit_class_fun: "in_ranges [(48, 57)] = isDigit"
  by (rule ext) (simp add: isDigit_ranges)

lemma mobileRegex_pattern: "rx_test mobileRegex s \<longleftrightarrow> mobile_pattern s"
proof (cases s)
  case Nil
  then show ?thesis by (simp add: mobileRegex_def rx_test_Bol mobile_pattern_def)
next
  case (Cons c cs)
  have tail: "rx_step (Seq (Times 9 digit_class) Eol) (p, t)
          = (if 9 \<le> length t \<and> list_all isDigit (take 9 t) \<and> drop 9 t = []
             then [(p + 9, drop 9 t)] else [])" for p t
    by (simp add: rx_iter_char digit_class_fun concat_map_if_single del: drop_eq_Nil drop_eq_Nil2)
  have head: "rx_step (Seq (Class rs) r) (p, d # ds)
          = (if in_ranges rs d then rx_step r (Suc p, ds) else [])" for rs r p d ds
    by simp
  have "rx_test mobileRegex (c # cs)
          \<longleftrightarrow> in_ranges [(54, 57)] c \<and> 9 \<le> length cs \<and> list_all isDigit (take 9 cs) \<and> drop 9 cs = []"
    unfolding mobileRegex_def rx_test_Bol head tail
    by (simp del: drop_eq_Nil drop_eq_Nil2 take_all take_all_iff)
  also have "\<dots> \<longleftrightarrow> mobile_pattern (c # cs)"
    by (cases "length cs = 9") (auto simp: mobile_pattern_def in_ranges_def isDigit_def)
  finally show ?thesis using Cons by simp
qed

text \<open>
  C3, as amended.  \<open>validateMobile\<close> passes if and only if the value of the field, with
  the white space at its two ends removed, matches \<open>^[6-9]\d{9}$\<close>: ten digits, the first
  one from 6 to 9.  When it does not, the error element shows the invalid-mobile message;
  when it does, the error element is hidden and its text is left alone.
\<close>

theorem C3_validateMobile_trimmed_pattern:
  "fst (validateMobile st) = mobile_pattern (trim (mobileNumberValue st))
   \<and> mobileNumberErrorDisplay (snd (validateMobile st))
        = (if mobile_pattern (trim (mobileNumberValue st)) then js ''none'' else js ''block'')
   \<and> mobileNumberErrorText (snd (validateMobile st))
        = (if mobile_pattern (trim (mobileNumberValue st)) then mobileNumberErrorText st
           else invalidMobileMsg)"
  by (simp add: validateMobile_def Let_def mobileRegex_pattern)


theorem C3_validateMobile_witness:
  "fst (validateMobile (emptyPage\<lparr>mobileNumberValue := js ''9876543210''\<rparr>)) = True
   \<and> fst (validateMobile (emptyPage\<lparr>mobileNumberValue := js ''1234567890''\<rparr>)) = False
   \<and> mobileNumberErrorText (snd (validateMobile (emptyPage\<lparr>mobileNumberValue := js ''98765432''\<rparr>)))
        = invalidMobileMsg"
  using C3_validateMobile_trimmed_pattern [of "emptyPage\<lparr>mobileNumberValue := js ''9876543210''\<rparr>"]
        C3_validateMobile_trimmed_pattern [of "emptyPage\<lparr>mobileNumberValue := js ''1234567890''\<rparr>"]
        C3_validateMobile_trimmed_pattern [of "emptyPage\<lparr>mobileNumberValue := js ''98765432''\<rparr>"]
  by (simp add: trim_def isWhiteSpace_def mobile_pattern_def isDigit_def)

text \<open>
  Without the trimming the property fails: on a value with white space before ten digits,
  the value itself does not match the pattern, and validation passes.
\<close>

theorem C3_untrimmed_counterexample:
  "fst (validateMobile (emptyPage\<lparr>mobileNumberValue := js '' 9876543210''\<rparr>))
   \<and> \<not> mobile_pattern (js '' 9876543210'')"
  by (simp add: validateMobile_def Let_def mobileRegex_pattern trim_def isWhiteSpace_def
        mobile_pattern_def isDigit_def emptyPage_def)

subsection \<open>Reindexing and removing child groups\<close>

lemma querySelector_Some:
  "querySelector P es = Some i \<Longrightarrow> i < length es \<and> P (es ! i)"
  by (induction es arbitrary: i) (auto split: if_splits)

lemma querySelector_map: "querySelector P es = querySelector (\<lambda>b. b) (map P es)"
  by (induction es) auto

lemma querySelector_cong_map:
  "map P es' = map P es \<Longrightarrow> querySelector P es' = querySelector P es"
  using querySelector_map [of P es'] querySelector_map [of P es] by simp

lemma update_found_length [simp]: "length (update_found r f es) = length es"
  by (simp add: update_found_def split: option.splits)

lemma update_found_nth:
  "j < length es \<Longrightarrow> update_found r f es ! j = (if r = Some j then f (es ! j) else es ! j)"
  by (cases r) (auto simp: update_found_def nth_list_update)

lemma update_found_map:
  assumes "\<And>i. r = Some i \<Longrightarrow> i < length es \<Longrightarrow> h (f (es ! i)) = h (es ! i)"
  shows "map h (update_found r f es) = map h es"
  by (rule nth_equalityI) (use assms in \<open>auto simp: update_found_nth\<close>)

lemma startsWith_nth: "startsWith p s \<Longrightarrow> n < length p \<Longrightarrow> s ! n = p ! n"
  by (metis nth_take startsWith_def)

lemma prefix_exclusive:
  "\<not> (startsWith childNameId s \<and> startsWith childDisplayNameId s)"
  "\<not> (startsWith childNameId s \<and> startsWith childDOBId s)"
  "\<not> (startsWith childDisplayNameId s \<and> startsWith childDOBId s)"
proof -
  have n: "startsWith childNameId s \<Longrightarrow> s ! 5 = 78"
    using startsWith_nth [of "childNameId" s 5] by (simp add: childNameId_def)
  have d: "startsWith childDisplayNameId s \<Longrightarrow> s ! 5 = 68 \<and> s ! 6 = 105"
    using startsWith_nth [of "childDisplayNameId" s 5]
          startsWith_nth [of "childDisplayNameId" s 6] by (simp add: childDisplayNameId_def)
  have b: "startsWith childDOBId s \<Longrightarrow> s ! 5 = 68 \<and> s ! 6 = 79"
    using startsWith_nth [of "childDOBId" s 5]
          startsWith_nth [of "childDOBId" s 6] by (simp add: childDOBId_def)
  show "\<not> (startsWith childNameId s \<and> startsWith childDisplayNameId s)"
    using n d by fastforce
  show "\<not> (startsWith childNameId s \<and> startsWith childDOBId s)"
    using n b by fastforce
  show "\<not> (startsWith childDisplayNameId s \<and> startsWith childDOBId s)"
    using d b by fastforce
qed

lemma startsWith_append [simp]: "startsWith p (p @ s)"
  by (simp add: startsWith_def)

lemma shape_set_text [simp]: "shape (set_text t x) = shape x"
  by (cases x) (simp_all add: shape_def)

lemma shape_set_display [simp]: "shape (set_display d x) = shape x"
  by (cases x) (simp_all add: shape_def)

lemma prefix_exclusive_append:
  "\<not> startsWith childDisplayNameId (childNameId @ n)"
  "\<not> startsWith childDOBId (childNameId @ n)"
  "\<not> startsWith childNameId (childDisplayNameId @ n)"
  "\<not> startsWith childDOBId (childDisplayNameId @ n)"
  "\<not> startsWith childNameId (childDOBId @ n)"
  "\<not> startsWith childDisplayNameId (childDOBId @ n)"
  using prefix_exclusive [of "childNameId @ n"]
    prefix_exclusive [of "childDisplayNameId @ n"] prefix_exclusive [of "childDOBId @ n"]
    startsWith_append [of "childNameId" n] startsWith_append [of "childDisplayNameId" n]
    startsWith_append [of "childDOBId" n]
  by blast+

lemma shape_set_id:
  "is_input_with_id childNameId x \<Longrightarrow> shape (set_id (childNameId @ n) x) = shape x"
  "is_input_with_id childDisplayNameId x \<Longrightarrow> shape (set_id (childDisplayNameId @ n) x) = shape x"
  "is_input_with_id childDOBId x \<Longrightarrow> shape (set_id (childDOBId @ n) x) = shape x"
proof -
  show "is_input_with_id childNameId x \<Longrightarrow> shape (set_id (childNameId @ n) x) = shape x"
  proof (cases x)
    case (Input i)
    assume "is_input_with_id childNameId x"
    with Input prefix_exclusive [of "inp_id i"] show ?thesis
      unfolding shape_def by (simp add: prefix_exclusive_append)
  qed simp_all
  show "is_input_with_id childDisplayNameId x \<Longrightarrow> shape (set_id (childDisplayNameId @ n) x) = shape x"
  proof (cases x)
    case (Input i)
    assume "is_input_with_id childDisplayNameId x"
    with Input prefix_exclusive [of "inp_id i"] show ?thesis
      unfolding shape_def by (simp add: prefix_exclusive_append)
  qed simp_all
  show "is_input_with_id childDOBId x \<Longrightarrow> shape (set_id (childDOBId @ n) x) = shape x"
  proof (cases x)
    case (Input i)
    assume "is_input_with_id childDOBId x"
    with Input prefix_exclusive [of "inp_id i"] show ?thesis
      unfolding shape_def by (simp add: prefix_exclusive_append)
  qed simp_all
qed

lemma shape_selectors:
  assumes "map shape es' = map shape es"
  shows "querySelector is_header es' = querySelector is_header es"
    and "querySelector (is_input_with_id childNameId) es' = querySelector (is_input_with_id childNameId) es"
    and "querySelector (is_input_with_id childDisplayNameId) es'
           = querySelector (is_input_with_id childDisplayNameId) es"
    and "querySelector (is_input_with_id childDOBId) es' = querySelector (is_input_with_id childDOBId) es"
    and "querySelector is_button es' = querySelector is_button es"
proof -
  have m: "map (\<lambda>x. f (shape x)) es' = map (\<lambda>x. f (shape x)) es"
    for f :: "bool \<times> bool \<times> bool \<times> bool \<times> bool \<Rightarrow> bool"
  proof -
    have "map f (map shape es') = map f (map shape es)" using assms by (rule arg_cong)
    then show ?thesis by (simp only: map_map o_def)
  qed
  show "querySelector is_header es' = querySelector is_header es"
    by (rule querySelector_cong_map) (use m [of fst] in \<open>simp add: shape_def\<close>)
  show "querySelector (is_input_with_id childNameId) es' = querySelector (is_input_with_id childNameId) es"
    by (rule querySelector_cong_map) (use m [of "\<lambda>t. fst (snd t)"] in \<open>simp add: shape_def\<close>)
  show "querySelector (is_input_with_id childDisplayNameId) es'
          = querySelector (is_input_with_id childDisplayNameId) es"
    by (rule querySelector_cong_map) (use m [of "\<lambda>t. fst (snd (snd t))"] in \<open>simp add: shape_def\<close>)
  show "querySelector (is_input_with_id childDOBId) es' = querySelector (is_input_with_id childDOBId) es"
    by (rule querySelector_cong_map)
      (use m [of "\<lambda>t. fst (snd (snd (snd t)))"] in \<open>simp add: shape_def\<close>)
  show "querySelector is_button es' = querySelector is_button es"
    by (rule querySelector_cong_map)
      (use m [of "\<lambda>t. snd (snd (snd (snd t)))"] in \<open>simp add: shape_def\<close>)
qed

lemma shape_found_input:
  assumes "map shape es' = map shape es" and "i < length es"
  shows "is_input_with_id childNameId (es' ! i) = is_input_with_id childNameId (es ! i)"
    and "is_input_with_id childDisplayNameId (es' ! i) = is_input_with_id childDisplayNameId (es ! i)"
    and "is_input_with_id childDOBId (es' ! i) = is_input_with_id childDOBId (es ! i)"
proof -
  have "length es' = length es" using assms(1) by (rule map_eq_imp_length_eq)
  moreover have "map shape es' ! i = map shape es ! i" using assms(1) by (rule arg_cong)
  ultimately have "shape (es' ! i) = shape (es ! i)"
    using assms(2) by simp
  then show "is_input_with_id childNameId (es' ! i) = is_input_with_id childNameId (es ! i)"
    and "is_input_with_id childDisplayNameId (es' ! i) = is_input_with_id childDisplayNameId (es ! i)"
    and "is_input_with_id childDOBId (es' ! i) = is_input_with_id childDOBId (es ! i)"
    by (simp_all add: shape_def)
qed

lemma reindex_group_positions:
  "elems (reindex_group n g) =
     update_found (querySelector is_button (elems g)) (set_display (if n = 1 then js ''none'' else []))
      (update_found (querySelector (is_input_with_id childDOBId) (elems g))
         (set_id (childDOBId @ nat_to_string n))
       (update_found (querySelector (is_input_with_id childDisplayNameId) (elems g))
          (set_id (childDisplayNameId @ nat_to_string n))
        (update_found (querySelector (is_input_with_id childNameId) (elems g))
           (set_id (childNameId @ nat_to_string n))
         (update_found (querySelector is_header (elems g))
            (set_text (js ''Child '' @ nat_to_string n)) (elems g)))))"
    (is "_ = ?rhs")
  and reindex_group_shape: "map shape (elems (reindex_group n g)) = map shape (elems g)"
proof -
  define es where "es = elems g"
  define es1 where "es1 = update_found (querySelector is_header es)
                            (set_text (js ''Child '' @ nat_to_string n)) es"
  define es2 where "es2 = update_found (querySelector (is_input_with_id childNameId) es)
                            (set_id (childNameId @ nat_to_string n)) es1"
  define es3 where "es3 = update_found (querySelector (is_input_with_id childDisplayNameId) es)
                            (set_id (childDisplayNameId @ nat_to_string n)) es2"
  define es4 where "es4 = update_found (querySelector (is_input_with_id childDOBId) es)
                            (set_id (childDOBId @ nat_to_string n)) es3"
  define es5 where "es5 = update_found (querySelector is_button es)
                            (set_display (if n = 1 then js ''none'' else [])) es4"
  have s1: "map shape es1 = map shape es"
    unfolding es1_def by (rule update_found_map) simp
  have l1: "length es1 = length es" by (simp add: es1_def)
  have s2: "map shape es2 = map shape es1"
    unfolding es2_def
  proof (rule update_found_map)
    fix i assume "querySelector (is_input_with_id childNameId) es = Some i" "i < length es1"
    then have "is_input_with_id childNameId (es1 ! i)"
      using querySelector_Some [of "is_input_with_id childNameId" es i] shape_found_input(1) [OF s1]
      by simp
    then show "shape (set_id (childNameId @ nat_to_string n) (es1 ! i)) = shape (es1 ! i)"
      by (rule shape_set_id)
  qed
  have s2': "map shape es2 = map shape es" using s1 s2 by simp
  have s3: "map shape es3 = map shape es2"
    unfolding es3_def
  proof (rule update_found_map)
    fix i assume "querySelector (is_input_with_id childDisplayNameId) es = Some i" "i < length es2"
    then have "is_input_with_id childDisplayNameId (es2 ! i)"
      using querySelector_Some [of "is_input_with_id childDisplayNameId" es i]
        shape_found_input(2) [OF s2']
      by simp
    then show "shape (set_id (childDisplayNameId @ nat_to_string n) (es2 ! i)) = shape (es2 ! i)"
      by (rule shape_set_id)
  qed
  have s3': "map shape es3 = map shape es" using s2' s3 by simp
  have s4: "map shape es4 = map shape es3"
    unfolding es4_def
  proof (rule update_found_map)
    fix i assume "querySelector (is_input_with_id childDOBId) es = Some i" "i < length es3"
    then have "is_input_with_id childDOBId (es3 ! i)"
      using querySelector_Some [of "is_input_with_id childDOBId" es i] shape_found_input(3) [OF s3']
      by simp
    then show "shape (set_id (childDOBId @ nat_to_string n) (es3 ! i)) = shape (es3 ! i)"
      by (rule shape_set_id)
  qed
  have s4': "map shape es4 = map shape es" using s3' s4 by simp
  have s5: "map shape es5 = map shape es4"
    unfolding es5_def by (rule update_found_map) simp
  note a = shape_selectors(2-4) [OF s1, unfolded es1_def es_def]
  note b = shape_selectors(5) [OF s4', unfolded es4_def es3_def es2_def es1_def es_def]
  have e: "elems (reindex_group n g) = ?rhs"
    unfolding reindex_group_def Let_def by (simp only: a b) simp
  then show "elems (reindex_group n g) = ?rhs" .
  have "?rhs = es5"
    unfolding es5_def es4_def es3_def es2_def es1_def es_def ..
  with e s5 s4' show "map shape (elems (reindex_group n g)) = map shape (elems g)"
    by (simp only: es_def)
qed

lemma is_input_exclusive:
  "\<not> (is_input_with_id childNameId x \<and> is_input_with_id childDisplayNameId x)"
  "\<not> (is_input_with_id childNameId x \<and> is_input_with_id childDOBId x)"
  "\<not> (is_input_with_id childDisplayNameId x \<and> is_input_with_id childDOBId x)"
  using prefix_exclusive by (cases x; simp)+

lemma reindex_group_length [simp]: "length (elems (reindex_group n g)) = length (elems g)"
  by (simp add: reindex_group_positions)

lemma reindex_group_selectors:
  "querySelector is_header (elems (reindex_group n g)) = querySelector is_header (elems g)"
  "querySelector (is_input_with_id childNameId) (elems (reindex_group n g))
     = querySelector (is_input_with_id childNameId) (elems g)"
  "querySelector (is_input_with_id childDisplayNameId) (elems (reindex_group n g))
     = querySelector (is_input_with_id childDisplayNameId) (elems g)"
  "querySelector (is_input_with_id childDOBId) (elems (reindex_group n g))
     = querySelector (is_input_with_id childDOBId) (elems g)"
  "querySelector is_button (elems (reindex_group n g)) = querySelector is_button (elems g)"
  by (rule shape_selectors [OF reindex_group_shape])+

lemma reindex_group_nth:
  assumes "j < length (elems g)"
  shows "elems (reindex_group n g) ! j =
     (case elems g ! j of
        Header t \<Rightarrow>
          Header (if querySelector is_header (elems g) = Some j
                  then js ''Child '' @ nat_to_string n else t)
      | Input inp \<Rightarrow>
          Input (inp\<lparr>inp_id :=
            (if querySelector (is_input_with_id childDOBId) (elems g) = Some j
             then childDOBId @ nat_to_string n
             else if querySelector (is_input_with_id childDisplayNameId) (elems g) = Some j
             then childDisplayNameId @ nat_to_string n
             else if querySelector (is_input_with_id childNameId) (elems g) = Some j
             then childNameId @ nat_to_string n
             else inp_id inp)\<rparr>)
      | Button ty t d \<Rightarrow>
          Button ty t (if querySelector is_button (elems g) = Some j
                       then (if n = 1 then js ''none'' else []) else d)
      | Label t \<Rightarrow> Label t
      | Hint t \<Rightarrow> Hint t
      | ErrorSpan t \<Rightarrow> ErrorSpan t)"
  using assms
  by (cases "elems g ! j") (simp_all add: reindex_group_positions update_found_nth)

lemma reindex_group_record:
  "reindex_group n g = g\<lparr>dataset_index := nat_to_string n, elems := elems (reindex_group n g)\<rparr>"
  by (simp add: reindex_group_def Let_def)

lemma reindex_group_idem: "reindex_group n (reindex_group n g) = reindex_group n g"
proof -
  have "elems (reindex_group n (reindex_group n g)) = elems (reindex_group n g)"
  proof (rule nth_equalityI)
    show "length (elems (reindex_group n (reindex_group n g))) = length (elems (reindex_group n g))"
      by simp
  next
    fix j assume "j < length (elems (reindex_group n (reindex_group n g)))"
    then have j: "j < length (elems g)" by simp
    then have j': "j < length (elems (reindex_group n g))" by simp
    show "elems (reindex_group n (reindex_group n g)) ! j = elems (reindex_group n g) ! j"
      unfolding reindex_group_nth [OF j'] reindex_group_selectors
      unfolding reindex_group_nth [OF j]
      by (cases "elems g ! j") simp_all
  qed
  then show ?thesis
    by (intro child_group.equality) (simp_all add: reindex_group_def Let_def)
qed

lemma reindex_group_entered: "entered (reindex_group n g) = entered g"
proof -
  have "input_value p (reindex_group n g) = input_value p g"
    if "querySelector (is_input_with_id p) (elems (reindex_group n g))
          = querySelector (is_input_with_id p) (elems g)" for p
  proof (cases "querySelector (is_input_with_id p) (elems g)")
    case None
    with that show ?thesis by (simp add: input_value_def)
  next
    case (Some i)
    then have i: "i < length (elems g)" using querySelector_Some by fastforce
    show ?thesis
      using that Some
      by (cases "elems g ! i") (simp_all add: input_value_def reindex_group_nth [OF i])
  qed
  then show ?thesis
    by (simp add: entered_def reindex_group_selectors)
qed

lemma reindex_group_complete: "complete (reindex_group n g) = complete g"
  by (simp add: complete_def reindex_group_selectors)

lemma reindex_group_index [simp]: "dataset_index (reindex_group n g) = nat_to_string n"
  by (simp add: reindex_group_def Let_def)

lemma reindex_group_remove_display:
  assumes "querySelector is_button (elems g) \<noteq> None"
  shows "remove_display (reindex_group n g) = Some (if n = 1 then js ''none'' else [])"
proof -
  from assms obtain i where q: "querySelector is_button (elems g) = Some i" by auto
  then have i: "i < length (elems g)" and b: "is_button (elems g ! i)"
    using querySelector_Some [OF q] by simp_all
  from b q show ?thesis
    by (cases "elems g ! i")
       (simp_all add: remove_display_def reindex_group_selectors reindex_group_nth [OF i])
qed

lemma reindex_group_numbered:
  assumes "complete g"
  shows "numbered n (reindex_group n g)"
proof -
  let ?es = "elems g"
  from assms obtain h a b c where
    h: "querySelector is_header ?es = Some h" and
    a: "querySelector (is_input_with_id childNameId) ?es = Some a" and
    b: "querySelector (is_input_with_id childDisplayNameId) ?es = Some b" and
    c: "querySelector (is_input_with_id childDOBId) ?es = Some c"
    by (auto simp: complete_def)
  note H = querySelector_Some [OF h] and A = querySelector_Some [OF a]
    and B = querySelector_Some [OF b] and C = querySelector_Some [OF c]
  have ht: "header_text (reindex_group n g) = Some (js ''Child '' @ nat_to_string n)"
    using H h
    by (cases "?es ! h")
       (simp_all add: header_text_def reindex_group_selectors reindex_group_nth)
  have ab: "a \<noteq> b" and ac: "a \<noteq> c" and bc: "b \<noteq> c"
    using A B C is_input_exclusive by blast+
  have ia: "input_id childNameId (reindex_group n g) = Some (childNameId @ nat_to_string n)"
    using A a b c ab ac
    by (cases "?es ! a")
       (simp_all add: input_id_def reindex_group_selectors reindex_group_nth)
  have ib: "input_id childDisplayNameId (reindex_group n g)
              = Some (childDisplayNameId @ nat_to_string n)"
    using B a b c ab bc
    by (cases "?es ! b")
       (simp_all add: input_id_def reindex_group_selectors reindex_group_nth)
  have ic: "input_id childDOBId (reindex_group n g) = Some (childDOBId @ nat_to_string n)"
    using C a b c ac bc
    by (cases "?es ! c")
       (simp_all add: input_id_def reindex_group_selectors reindex_group_nth)
  show ?thesis
    by (simp add: numbered_def ht ia ib ic)
qed

lemma reindex_nodes_idem: "reindex_nodes i (reindex_nodes i ns) = reindex_nodes i ns"
proof (induction ns arbitrary: i)
  case Nil
  show ?case by simp
next
  case (Cons x ns)
  then show ?case by (cases x) (simp_all add: reindex_group_idem)
qed

lemma groups_of_reindex_length [simp]:
  "length (groups_of (reindex_nodes i ns)) = length (groups_of ns)"
proof (induction ns arbitrary: i)
  case Nil
  show ?case by simp
next
  case (Cons x ns)
  then show ?case by (cases x) simp_all
qed

lemma groups_of_reindex_nth:
  "j < length (groups_of ns) \<Longrightarrow>
     groups_of (reindex_nodes i ns) ! j = reindex_group (i + j + 1) (groups_of ns ! j)"
proof (induction ns arbitrary: i j)
  case Nil
  then show ?case by simp
next
  case (Cons x ns)
  show ?case
  proof (cases x)
    case (Group g)
    with Cons show ?thesis by (cases j) simp_all
  next
    case (ErrorDiv t)
    with Cons show ?thesis by simp
  qed
qed

lemma groups_of_reindex_entered:
  "map entered (groups_of (reindex_nodes i ns)) = map entered (groups_of ns)"
  by (rule nth_equalityI) (simp_all add: groups_of_reindex_nth reindex_group_entered)

lemma groups_of_remove_group:
  "1 \<le> k \<Longrightarrow>
     groups_of (remove_group k ns) = take (k - 1) (groups_of ns) @ drop k (groups_of ns)"
proof (induction ns arbitrary: k)
  case Nil
  show ?case by simp
next
  case (Cons x ns)
  show ?case
  proof (cases x)
    case (Group g)
    show ?thesis
    proof (cases "k = 1")
      case True
      with Group show ?thesis by simp
    next
      case False
      with Cons.prems have k: "1 \<le> k - 1" by simp
      from False Cons.prems obtain m where m: "k = Suc (Suc m)"
        by (metis One_nat_def Suc_le_D le_antisym not_less_eq_eq)
      with Group Cons.IH [OF k] show ?thesis by simp
    qed
  next
    case (ErrorDiv t)
    with Cons show ?thesis by simp
  qed
qed

text \<open>
  C9.  Reindexing is idempotent and numbers the groups in their order: reindexing twice
  gives the state that reindexing once gives; the groups keep their order and what was
  entered into them; and the group at the \<open>i\<close>-th place, counted from 0, gets
  \<open>i + 1\<close> as its \<open>dataset.index\<close> and, when it has the parts of a child group,
  as the number of its label \<open>Child i+1\<close> and of the identifiers of its three inputs.
\<close>

theorem C9_reindex_idempotent_in_order:
  "reindexChildren (reindexChildren st) = reindexChildren st
   \<and> map entered (groups_of (childrenContainer (reindexChildren st)))
        = map entered (groups_of (childrenContainer st))
   \<and> (\<forall>i < length (groups_of (childrenContainer st)).
         dataset_index (groups_of (childrenContainer (reindexChildren st)) ! i) = nat_to_string (i + 1)
         \<and> (complete (groups_of (childrenContainer st) ! i)
              \<longrightarrow> numbered (i + 1) (groups_of (childrenContainer (reindexChildren st)) ! i)))"
proof (intro conjI allI impI)
  show "reindexChildren (reindexChildren st) = reindexChildren st"
    by (simp add: reindexChildren_def reindex_nodes_idem)
  show "map entered (groups_of (childrenContainer (reindexChildren st)))
          = map entered (groups_of (childrenContainer st))"
    by (simp add: reindexChildren_def groups_of_reindex_entered)
next
  fix i assume i: "i < length (groups_of (childrenContainer st))"
  then show "dataset_index (groups_of (childrenContainer (reindexChildren st)) ! i)
               = nat_to_string (i + 1)"
    by (simp add: reindexChildren_def groups_of_reindex_nth)
  assume "complete (groups_of (childrenContainer st) ! i)"
  with i show "numbered (i + 1) (groups_of (childrenContainer (reindexChildren st)) ! i)"
    by (simp add: reindexChildren_def groups_of_reindex_nth reindex_group_numbered)
qed

text \<open>
  C2.  In a container of \<open>n\<close> child groups, each with the parts of a child group, the
  click on the remove button of the \<open>k\<close>-th group, for \<open>2 \<le> k \<le> n\<close>, leaves
  \<open>n - 1\<close> groups: the other groups in their order, with what was entered into them,
  carrying the labels and identifiers of \<open>1\<close> to \<open>n - 1\<close> in that order; the remove
  button of the first of them is hidden (\<open>display: none\<close>), and the remove buttons of
  the others show.
\<close>

theorem C2_remove_relabels_in_order:
  assumes "2 \<le> k" and "k \<le> length (groups_of (childrenContainer st))"
    and "list_all complete (groups_of (childrenContainer st))"
  shows "length (groups_of (childrenContainer (removeBtn_click k st)))
           = length (groups_of (childrenContainer st)) - 1
   \<and> map entered (groups_of (childrenContainer (removeBtn_click k st)))
        = map entered (take (k - 1) (groups_of (childrenContainer st))
                        @ drop k (groups_of (childrenContainer st)))
   \<and> (\<forall>i < length (groups_of (childrenContainer (removeBtn_click k st))).
         numbered (i + 1) (groups_of (childrenContainer (removeBtn_click k st)) ! i)
         \<and> remove_display (groups_of (childrenContainer (removeBtn_click k st)) ! i)
             = Some (if i = 0 then js ''none'' else []))"
proof -
  let ?gs = "groups_of (childrenContainer st)"
  let ?rs = "take (k - 1) ?gs @ drop k ?gs"
  let ?gs' = "groups_of (childrenContainer (removeBtn_click k st))"
  have k1: "1 \<le> k" using assms(1) by simp
  have gs': "?gs' = groups_of (reindex_nodes 0 (remove_group k (childrenContainer st)))"
    using k1 assms(2) by (simp add: removeBtn_click_def reindexChildren_def)
  have rs: "groups_of (remove_group k (childrenContainer st)) = ?rs"
    by (rule groups_of_remove_group [OF k1])
  have len: "length ?gs' = length ?rs" by (simp add: gs' rs)
  have nth: "?gs' ! i = reindex_group (i + 1) (?rs ! i)" if "i < length ?rs" for i
    using that groups_of_reindex_nth [of i "remove_group k (childrenContainer st)" 0]
    by (simp add: gs' rs)
  have "set ?rs \<subseteq> set ?gs"
    using set_take_subset [of "k - 1" ?gs] set_drop_subset [of k ?gs] by auto
  then have comp: "complete (?rs ! i)" if "i < length ?rs" for i
    using that assms(3) nth_mem [of i ?rs] by (auto simp: list_all_iff)
  have l: "length ?gs' = length ?gs - 1"
    using k1 assms(2) by (simp add: len)
  have e: "map entered ?gs' = map entered ?rs"
    by (simp only: gs' groups_of_reindex_entered rs)
  have n: "numbered (i + 1) (?gs' ! i)
           \<and> remove_display (?gs' ! i) = Some (if i = 0 then js ''none'' else [])"
    if "i < length ?gs'" for i
  proof -
    from that have i: "i < length ?rs" by (simp add: len)
    have "querySelector is_button (elems (?rs ! i)) \<noteq> None"
      using comp [OF i] by (simp add: complete_def)
    then show ?thesis
      using reindex_group_numbered [OF comp [OF i], of "i + 1"]
        reindex_group_remove_display [of "?rs ! i" "i + 1"]
      by (simp add: nth [OF i])
  qed
  from l e n show ?thesis by blast
qed

lemma complete_sampleGroup: "complete (sampleGroup n name display d shown)"
  by (simp add: complete_def sampleGroup_def prefix_exclusive_append)

lemma entered_sampleGroup:
  "entered (sampleGroup n name display d shown) = (Inr name, Inr display, Inr d)"
  by (simp add: entered_def input_value_def sampleGroup_def prefix_exclusive_append)

lemma groups_of_samplePage:
  "groups_of (childrenContainer samplePage) =
     [sampleGroup (js ''7'') (js ''Ravi'') (js ''Ravu'') (js ''2020-01-01'') [],
      sampleGroup (js ''3'') (js ''Mira'') [] (js ''2019-05-17'') (js ''none''),
      sampleGroup (js ''7'') (js ''Dev'') [] (js ''2021-11-30'') []]"
  by (simp add: samplePage_def)

theorem C9_reindex_witness:
  "reindexChildren (reindexChildren samplePage) = reindexChildren samplePage
   \<and> numbered 1 (groups_of (childrenContainer (reindexChildren samplePage)) ! 0)
   \<and> numbered 2 (groups_of (childrenContainer (reindexChildren samplePage)) ! 1)
   \<and> numbered 3 (groups_of (childrenContainer (reindexChildren samplePage)) ! 2)
   \<and> map entered (groups_of (childrenContainer (reindexChildren samplePage)))
        = [(Inr (js ''Ravi''), Inr (js ''Ravu''), Inr (js ''2020-01-01'')),
           (Inr (js ''Mira''), Inr [], Inr (js ''2019-05-17'')),
           (Inr (js ''Dev''), Inr [], Inr (js ''2021-11-30''))]"
proof -
  let ?gs = "groups_of (childrenContainer samplePage)"
  let ?gs' = "groups_of (childrenContainer (reindexChildren samplePage))"
  note t = C9_reindex_idempotent_in_order [of samplePage]
  note a = t [THEN conjunct2, THEN conjunct2, rule_format, THEN conjunct2, rule_format]
  have i: "0 < length ?gs" "1 < length ?gs" "2 < length ?gs"
    by (simp_all add: groups_of_samplePage)
  have c: "complete (?gs ! 0)" "complete (?gs ! 1)" "complete (?gs ! 2)"
    by (simp_all add: groups_of_samplePage complete_sampleGroup)
  have "numbered (0 + 1) (?gs' ! 0)" by (rule a [OF i(1) c(1)])
  then have n1: "numbered 1 (?gs' ! 0)" by simp
  have "numbered (1 + 1) (?gs' ! 1)" by (rule a [OF i(2) c(2)])
  then have n2: "numbered 2 (?gs' ! 1)" by (simp only: one_add_one)
  have "numbered (2 + 1) (?gs' ! 2)" by (rule a [OF i(3) c(3)])
  then have n3: "numbered 3 (?gs' ! 2)" by simp
  have e: "map entered ?gs' = [(Inr (js ''Ravi''), Inr (js ''Ravu''), Inr (js ''2020-01-01'')),
           (Inr (js ''Mira''), Inr [], Inr (js ''2019-05-17'')),
           (Inr (js ''Dev''), Inr [], Inr (js ''2021-11-30''))]"
    using t by (simp add: groups_of_samplePage entered_sampleGroup)
  from t n1 n2 n3 e show ?thesis by blast
qed

theorem C2_remove_witness:
  "length (groups_of (childrenContainer (removeBtn_click 2 samplePage))) = 2
   \<and> map entered (groups_of (childrenContainer (removeBtn_click 2 samplePage)))
        = [(Inr (js ''Ravi''), Inr (js ''Ravu''), Inr (js ''2020-01-01'')),
           (Inr (js ''Dev''), Inr [], Inr (js ''2021-11-30''))]
   \<and> numbered 1 (groups_of (childrenContainer (removeBtn_click 2 samplePage)) ! 0)
   \<and> numbered 2 (groups_of (childrenContainer (removeBtn_click 2 samplePage)) ! 1)
   \<and> remove_display (groups_of (childrenContainer (removeBtn_click 2 samplePage)) ! 0)
        = Some (js ''none'')
   \<and> remove_display (groups_of (childrenContainer (removeBtn_click 2 samplePage)) ! 1) = Some []"
proof -
  let ?gs' = "groups_of (childrenContainer (removeBtn_click 2 samplePage))"
  have h: "(2::nat) \<le> 2" "2 \<le> length (groups_of (childrenContainer samplePage))"
    "list_all complete (groups_of (childrenContainer samplePage))"
    by (simp_all add: groups_of_samplePage complete_sampleGroup)
  note t = C2_remove_relabels_in_order [OF h]
  note a = t [THEN conjunct2, THEN conjunct2, rule_format]
  from t have l: "length ?gs' = 2"
    by (simp add: groups_of_samplePage)
  have i: "0 < length ?gs'" "1 < length ?gs'"
    by (simp_all add: l)
  have e: "map entered ?gs' = [(Inr (js ''Ravi''), Inr (js ''Ravu''), Inr (js ''2020-01-01'')),
           (Inr (js ''Dev''), Inr [], Inr (js ''2021-11-30''))]"
    using t by (simp add: groups_of_samplePage entered_sampleGroup)
  have "numbered (0 + 1) (?gs' ! 0) \<and> remove_display (?gs' ! 0) = Some (if (0::nat) = 0 then js ''none'' else [])"
    by (rule a [OF i(1)])
  then have n1: "numbered 1 (?gs' ! 0)" and r1: "remove_display (?gs' ! 0) = Some (js ''none'')"
    by simp_all
  have "numbered (1 + 1) (?gs' ! 1) \<and> remove_display (?gs' ! 1) = Some (if (1::nat) = 0 then js ''none'' else [])"
    by (rule a [OF i(2)])
  then have n2: "numbered 2 (?gs' ! 1)" and r2: "remove_display (?gs' ! 1) = Some []"
    by (simp_all only: one_add_one one_neq_zero if_False)
  from l e n1 n2 r1 r2 show ?thesis by blast
qed

subsection \<open>Adding a child group, the lookup and the submission\<close>

text \<open>
  Were \<open>dobHint\<close> bound to the hint element, as its commented-out declaration would
  bind it, \<open>addChildGroup\<close> would append one group with the parts of a child group,
  carrying the next number, with its remove button hidden exactly on the first group.
\<close>

lemma new_child_group_complete: "complete (new_child_group e child prepop (Hint t) n)"
  by (simp add: new_child_group_def Let_def complete_def setupDatePicker_def
        prefix_exclusive_append split: prod.splits)

lemma new_child_group_numbered: "numbered n (new_child_group e child prepop (Hint t) n)"
  by (simp add: new_child_group_def Let_def numbered_def header_text_def input_id_def
        setupDatePicker_def prefix_exclusive_append split: prod.splits)

lemma new_child_group_remove_display:
  "remove_display (new_child_group e child prepop (Hint t) n)
     = Some (if n = 1 then js ''none'' else [])"
  by (simp add: new_child_group_def Let_def remove_display_def setupDatePicker_def
        split: prod.splits)

lemma addChildGroup_with_declared:
  assumes "arg \<noteq> Some JNull"
    and "prepopDate (case arg of None \<Rightarrow> JObj [] | Some c \<Rightarrow> c) = Inr prepop"
  shows "addChildGroup_with (Some (Hint t)) e arg st
           = (Inr (), st\<lparr>childrenContainer := childrenContainer st
                @ [Group (new_child_group e (case arg of None \<Rightarrow> JObj [] | Some c \<Rightarrow> c) prepop
                            (Hint t) (length (groups_of (childrenContainer st)) + 1))]\<rparr>)"
  using assms by (cases arg) (simp_all add: addChildGroup_with_def Let_def)

text \<open>
  As the file stands, the identifier is unbound, and every call of \<open>addChildGroup\<close>
  raises and leaves the page as it was.
\<close>

lemma prepopDate_string:
  "get_prop (js ''dob'') child = Some (JStr s) \<Longrightarrow> \<exists>v. prepopDate child = Inr v"
  by (simp add: prepopDate_def Let_def)

lemma prepopDate_absent:
  "\<not> truthy (get_prop (js ''dob'') child) \<Longrightarrow> prepopDate child = Inr None"
  by (simp add: prepopDate_def Let_def)

lemma addChildGroup_raises:
  "\<exists>err. addChildGroup e arg st = (Inl err, st)"
  by (cases "prepopDate (case arg of None \<Rightarrow> JObj [] | Some c \<Rightarrow> c)")
     (simp_all add: addChildGroup_def addChildGroup_with_def Let_def dobHint_def)

lemma addChildGroup_state [simp]: "snd (addChildGroup e arg st) = st"
  using addChildGroup_raises [of e arg st] by auto

lemma addChildGroup_no_argument:
  "addChildGroup e None st = (Inl (ReferenceError (js ''dobHint'')), st)"
  by (simp add: addChildGroup_def addChildGroup_with_def Let_def dobHint_def prepopDate_def)

lemma addChildGroup_stored_string_dob:
  assumes "child \<noteq> JNull" and "get_prop (js ''dob'') child = Some (JStr s)"
  shows "addChildGroup e (Some child) st = (Inl (ReferenceError (js ''dobHint'')), st)"
proof -
  from prepopDate_string [OF assms(2)] obtain v where "prepopDate child = Inr v" ..
  with assms(1) show ?thesis
    by (simp add: addChildGroup_def addChildGroup_with_def Let_def dobHint_def)
qed

text \<open>
  C6.  When the signature pad is empty, the click on the finish button sends no request and
  shows the alert that asks for the signature; nothing else of the page changes.
\<close>

theorem C6_empty_signature_blocks_submission:
  assumes "signatureEmpty st"
  shows "finishBtn_click e outcome st = (Inr (), st\<lparr>alerts := alerts st @ [SignatureMissing]\<rparr>)
         \<and> requests (snd (finishBtn_click e outcome st)) = requests st
         \<and> alerts (snd (finishBtn_click e outcome st)) = alerts st @ [SignatureMissing]"
  using assms by (simp add: finishBtn_click_def)

lemma finishBtn_click_posts:
  assumes "\<not> signatureEmpty st" and "trim (mobileNumberValue st) \<noteq> []"
    and "getChildData st = Inr children"
  shows "requests (snd (finishBtn_click e outcome st)) =
           requests st @ [PostConsent \<lparr>p_parentName = trim (parentNameValue st),
              p_mobile = trim (mobileNumberValue st), p_children = children,
              p_signature = signatureDataURL e\<rparr>]"
proof -
  have h: "requests (snd (handle_response m outcome s)) = requests s" for m s
    by (auto simp: handle_response_def Let_def split: post_outcome.splits option.splits
          sum.splits bool.splits)
  have "requests (case handle_response m outcome s of
                  (Inl err, st2) \<Rightarrow> st2\<lparr>alerts := alerts st2 @ [SubmitError err]\<rparr>
                | (Inr u, st2) \<Rightarrow> st2) = requests s" for m s
    using h [of m s] by (cases "handle_response m outcome s") (auto split: sum.splits)
  with assms show ?thesis
    by (simp add: finishBtn_click_def Let_def)
qed

theorem C6_empty_signature_witness:
  "alerts (snd (finishBtn_click sampleEnv
       (PostResponse True 200 [] (Some (JObj [(js ''success'', JBool True)]))) samplePage))
     = [SignatureMissing]
   \<and> requests (snd (finishBtn_click sampleEnv
       (PostResponse True 200 [] (Some (JObj [(js ''success'', JBool True)]))) samplePage)) = []"
proof -
  have h: "signatureEmpty samplePage" by (simp add: samplePage_def emptyPage_def)
  show ?thesis
    using C6_empty_signature_blocks_submission [OF h, of sampleEnv
            "PostResponse True 200 [] (Some (JObj [(js ''success'', JBool True)]))"]
    by (simp add: samplePage_def emptyPage_def)
qed

lemma fetchExistingConsent_fails:
  assumes "lookup_fails outcome" and "isExistingCustomer st = False"
  shows "fetchExistingConsent e mobile outcome st
           = (if well_formed_utf16 mobile then st\<lparr>requests := requests st @ [GetConsent mobile]\<rparr>
              else st)"
  using assms
  by (cases outcome)
     (auto simp: fetchExistingConsent_def lookup_fails_def Let_def split: option.splits if_splits)

lemma lookup_fails_newCustomer: "lookup_fails (GetResponse True (Some newCustomerResponse))"
  by (simp add: lookup_fails_def newCustomerResponse_def)

text \<open>
  C7.  When the mobile number is valid and the lookup fails (the network fails, the
  response is not OK, or its body says that nothing exists), the click that starts the
  lookup ends as it does for a number that has no consent stored: with the same result and
  the same page, on which \<open>isExistingCustomer\<close> is false, the parent name is empty and
  editable, the children container is empty, and no alert has been shown.
\<close>

theorem C7_failed_lookup_is_swallowed:
  assumes "fst (validateMobile st)" and "lookup_fails outcome"
  shows "nextToDetailsBtn_click e outcome st
           = nextToDetailsBtn_click e (GetResponse True (Some newCustomerResponse)) st
   \<and> isExistingCustomer (snd (nextToDetailsBtn_click e outcome st)) = False
   \<and> parentNameValue (snd (nextToDetailsBtn_click e outcome st)) = []
   \<and> parentNameReadOnly (snd (nextToDetailsBtn_click e outcome st)) = False
   \<and> childrenContainer (snd (nextToDetailsBtn_click e outcome st)) = []
   \<and> alerts (snd (nextToDetailsBtn_click e outcome st)) = alerts st"
proof -
  obtain st1 where v: "validateMobile st = (True, st1)"
    using assms(1) by (cases "validateMobile st") auto
  then have a: "alerts st1 = alerts st"
    by (auto simp: validateMobile_def Let_def split: if_splits)
  have c: "isExistingCustomer (clearPrefill st1) = False" by (simp add: clearPrefill_def)
  note f = fetchExistingConsent_fails [OF _ c]
  have fields: "childrenContainer (clearPrefill st1) = []" "parentNameValue (clearPrefill st1) = []"
    "alerts (clearPrefill st1) = alerts st1"
    by (simp_all add: clearPrefill_def)
  show ?thesis
    using a c fields
    by (simp add: nextToDetailsBtn_click_def v Let_def f [OF assms(2)]
          f [OF lookup_fails_newCustomer] addChildGroup_no_argument)
qed

lemma validateMobile_typedPage:
  "validateMobile typedPage = (True, typedPage)"
proof -
  have "mobile_pattern (trim (js ''9876543210''))"
    by (simp add: trim_def isWhiteSpace_def mobile_pattern_def isDigit_def)
  then show ?thesis
    unfolding validateMobile_def Let_def
    by (simp add: mobileRegex_pattern typedPage_def emptyPage_def)
qed

theorem C7_failed_lookup_witness:
  "nextToDetailsBtn_click sampleEnv GetRejected typedPage
     = nextToDetailsBtn_click sampleEnv (GetResponse True (Some newCustomerResponse)) typedPage
   \<and> nextToDetailsBtn_click sampleEnv (GetResponse False None) typedPage
     = nextToDetailsBtn_click sampleEnv (GetResponse True (Some newCustomerResponse)) typedPage
   \<and> isExistingCustomer (snd (nextToDetailsBtn_click sampleEnv GetRejected typedPage)) = False
   \<and> parentNameValue (snd (nextToDetailsBtn_click sampleEnv GetRejected typedPage)) = []
   \<and> childrenContainer (snd (nextToDetailsBtn_click sampleEnv GetRejected typedPage)) = []
   \<and> alerts (snd (nextToDetailsBtn_click sampleEnv GetRejected typedPage)) = []"
proof -
  have v: "fst (validateMobile typedPage)" by (simp add: validateMobile_typedPage)
  have l: "lookup_fails GetRejected" "lookup_fails (GetResponse False None)"
    by (simp_all add: lookup_fails_def)
  have a: "alerts typedPage = []" by (simp add: typedPage_def emptyPage_def)
  note t1 = C7_failed_lookup_is_swallowed [OF v l(1), of sampleEnv, unfolded a]
    and t2 = C7_failed_lookup_is_swallowed [OF v l(2), of sampleEnv, unfolded a]
  from t1 t2 show ?thesis by blast
qed

lemma trim_typed: "trim (js ''9876543210'') = js ''9876543210''"
  by (simp add: trim_def isWhiteSpace_def)

lemma typedPage_fields:
  "mobileNumberValue typedPage = js ''9876543210''" "clearPrefill typedPage = typedPage"
  "requests typedPage = []" "childrenContainer typedPage = []"
  "isExistingCustomer typedPage = False" "parentNameReadOnly typedPage = False"
  by (simp_all add: typedPage_def emptyPage_def clearPrefill_def)

lemma fetchExistingConsent_stored:
  assumes "well_formed_utf16 m"
  shows "fetchExistingConsent e m (GetResponse True (Some wrappedResponse)) s
           = s\<lparr>requests := requests s @ [GetConsent m],
               parentNameValue := js ''A'', childrenContainer := [], isExistingCustomer := False\<rparr>"
    and "fetchExistingConsent e m (GetResponse True (Some unwrappedResponse)) s
           = s\<lparr>requests := requests s @ [GetConsent m],
               parentNameValue := js ''A'', childrenContainer := [], isExistingCustomer := False\<rparr>"
proof -
  have c: "addChildGroup e (Some storedChild) t = (Inl (ReferenceError (js ''dobHint'')), t)" for t
    by (rule addChildGroup_stored_string_dob [of _ "js ''2020-01-01''"])
       (simp_all add: storedChild_def)
  have p: "populateExistingData e (Some storedData) t
           = (Inl (ReferenceError (js ''dobHint'')),
              t\<lparr>parentNameValue := js ''A'', childrenContainer := []\<rparr>)" for t
    by (simp add: populateExistingData_def Let_def clearChildren_def c storedData_def)
  have p': "populateExistingData e (Some unwrappedResponse) t
           = (Inl (ReferenceError (js ''dobHint'')),
              t\<lparr>parentNameValue := js ''A'', childrenContainer := []\<rparr>)" for t
    by (simp add: populateExistingData_def Let_def clearChildren_def c unwrappedResponse_def)
  have w: "get_prop (js ''exists'') wrappedResponse = Some (JBool True)"
    "get_prop (js ''data'') wrappedResponse = Some storedData"
    "truthy (Some wrappedResponse)" "truthy (Some storedData)"
    by (simp_all add: wrappedResponse_def storedData_def)
  have u: "get_prop (js ''exists'') unwrappedResponse = Some (JBool True)"
    "get_prop (js ''data'') unwrappedResponse = None" "truthy (Some unwrappedResponse)"
    by (simp_all add: unwrappedResponse_def)
  show "fetchExistingConsent e m (GetResponse True (Some wrappedResponse)) s
           = s\<lparr>requests := requests s @ [GetConsent m],
               parentNameValue := js ''A'', childrenContainer := [], isExistingCustomer := False\<rparr>"
    using assms by (simp add: fetchExistingConsent_def Let_def or_js_def p w [simplified])
  show "fetchExistingConsent e m (GetResponse True (Some unwrappedResponse)) s
           = s\<lparr>requests := requests s @ [GetConsent m],
               parentNameValue := js ''A'', childrenContainer := [], isExistingCustomer := False\<rparr>"
    using assms by (simp add: fetchExistingConsent_def Let_def or_js_def p' u [simplified])
qed

text \<open>
  C5.  What the code does on the lookup response of the specification's example, in its
  wrapped and in its unwrapped shape: the parent name becomes \<open>A\<close>, and then the first call of
  \<open>addChildGroup\<close> raises at its read of \<open>dobHint\<close>.  \<open>fetchExistingConsent\<close>
  catches that and turns \<open>isExistingCustomer\<close> back to false; the handler then calls
  \<open>addChildGroup\<close> for an empty row, which raises again, uncaught.  The page is left
  at the first step with no child row, the flag false and the parent name editable.
\<close>

theorem C5_prefill_raises_on_first_child:
  "nextToDetailsBtn_click sampleEnv (GetResponse True (Some wrappedResponse)) typedPage
     = (Inl (ReferenceError (js ''dobHint'')),
        typedPage\<lparr>parentNameValue := js ''A'', parentNameSectionDisplay := js ''block'',
                   requests := [GetConsent (js ''9876543210'')]\<rparr>)
   \<and> nextToDetailsBtn_click sampleEnv (GetResponse True (Some unwrappedResponse)) typedPage
     = (Inl (ReferenceError (js ''dobHint'')),
        typedPage\<lparr>parentNameValue := js ''A'', parentNameSectionDisplay := js ''block'',
                   requests := [GetConsent (js ''9876543210'')]\<rparr>)
   \<and> isExistingCustomer (typedPage\<lparr>parentNameValue := js ''A'',
          parentNameSectionDisplay := js ''block'',
          requests := [GetConsent (js ''9876543210'')]\<rparr>) = False
   \<and> parentNameReadOnly (typedPage\<lparr>parentNameValue := js ''A'',
          parentNameSectionDisplay := js ''block'',
          requests := [GetConsent (js ''9876543210'')]\<rparr>) = False
   \<and> childrenContainer (typedPage\<lparr>parentNameValue := js ''A'',
          parentNameSectionDisplay := js ''block'',
          requests := [GetConsent (js ''9876543210'')]\<rparr>) = []"
proof -
  note f = fetchExistingConsent_stored [where e = sampleEnv]
  have "nextToDetailsBtn_click sampleEnv (GetResponse True (Some wrappedResponse)) typedPage
     = (Inl (ReferenceError (js ''dobHint'')),
        typedPage\<lparr>parentNameValue := js ''A'', parentNameSectionDisplay := js ''block'',
                   requests := [GetConsent (js ''9876543210'')]\<rparr>)"
    by (simp add: nextToDetailsBtn_click_def validateMobile_typedPage Let_def f
          addChildGroup_no_argument typedPage_fields [simplified] trim_typed [simplified];
        simp add: typedPage_def emptyPage_def)
  moreover
  have "nextToDetailsBtn_click sampleEnv (GetResponse True (Some unwrappedResponse)) typedPage
     = (Inl (ReferenceError (js ''dobHint'')),
        typedPage\<lparr>parentNameValue := js ''A'', parentNameSectionDisplay := js ''block'',
                   requests := [GetConsent (js ''9876543210'')]\<rparr>)"
    by (simp add: nextToDetailsBtn_click_def validateMobile_typedPage Let_def f
          addChildGroup_no_argument typedPage_fields [simplified] trim_typed [simplified];
        simp add: typedPage_def emptyPage_def)
  ultimately show ?thesis
    by (simp add: typedPage_fields)
qed

lemma validateChildren_no_groups:
  assumes "groups_of (childrenContainer st) = []"
  shows "validateChildren e st
           = (Inl (ReferenceError (js ''dobHint'')),
              st\<lparr>childrenContainer := remove_errors (childrenContainer st)\<rparr>)"
  using assms by (simp add: validateChildren_def Let_def addChildGroup_no_argument)

text \<open>
  C8.  What the code does when no child group exists at validation: \<open>validateChildren\<close>
  calls \<open>addChildGroup\<close>, which raises at its read of \<open>dobHint\<close>; no group is
  inserted, no error is shown below the container, and the call does not return
  \<open>false\<close> but ends with the exception, which the click handler does not catch.
\<close>

theorem C8_no_children_raises:
  "validateChildren sampleEnv namedPage = (Inl (ReferenceError (js ''dobHint'')), namedPage)
   \<and> groups_of (childrenContainer (snd (validateChildren sampleEnv namedPage))) = []
   \<and> nextToConsentBtn_click sampleEnv namedPage = (Inl (ReferenceError (js ''dobHint'')), namedPage)"
proof -
  have c: "childrenContainer namedPage = []" by (simp add: namedPage_def emptyPage_def)
  have r: "namedPage\<lparr>childrenContainer := []\<rparr> = namedPage"
    by (simp add: namedPage_def emptyPage_def)
  have a: "validateChildren sampleEnv namedPage = (Inl (ReferenceError (js ''dobHint'')), namedPage)"
    using validateChildren_no_groups [of namedPage sampleEnv] by (simp add: c r)
  have n: "validateParentNameIfNeeded namedPage = (True, namedPage)"
    by (simp add: validateParentNameIfNeeded_def Let_def namedPage_def emptyPage_def trim_def
          isWhiteSpace_def)
  show ?thesis
    by (simp add: a nextToConsentBtn_click_def n c)
qed

subsection \<open>The date of birth\<close>

lemma isoCalendarDate_nonempty: "isoCalendarDate s = Some ymd \<Longrightarrow> s \<noteq> []"
  by (auto simp: isoCalendarDate_def split: if_splits)

text \<open>
  The comparison of \<open>validateChildren\<close> on a date of birth written \<open>YYYY-MM-DD\<close>:
  the day of birth, at midnight UTC, against the day two years before today, at midnight
  local time.
\<close>

lemma validate_group_calendar_date:
  assumes "input_value childNameId g = Inr name" and "trim name \<noteq> []"
    and "input_value childDOBId g = Inr s" and "isoCalendarDate s = Some (y, m, d)"
    and "today e = (ty, tm, td)" and "101 < ty"
  shows "validate_group e g =
           (if MakeDay (ty - 2) tm td * msPerDay
                 - localTZA e (MakeDay (ty - 2) tm td * msPerDay)
               < MakeDay y (m - 1) d * msPerDay
            then Inr (False, append_error tooYoungMsg g) else Inr (True, g))"
  using assms isoCalendarDate_nonempty [OF assms(4)]
  by (simp add: validate_group_def parseDate_def localDate_def Let_def)

text \<open>
  So the day two years before today is accepted exactly where local time is not ahead of
  UTC, and the day after it is rejected wherever local time is less than a day behind UTC.
\<close>

lemma boundary_date_accepted_iff:
  assumes "input_value childNameId g = Inr name" and "trim name \<noteq> []"
    and "input_value childDOBId g = Inr s" and "isoCalendarDate s = Some (y, m, d)"
    and "today e = (ty, tm, td)" and "101 < ty"
    and "MakeDay y (m - 1) d = MakeDay (ty - 2) tm td"
  shows "validate_group e g = Inr (True, g)
           \<longleftrightarrow> localTZA e (MakeDay (ty - 2) tm td * msPerDay) \<le> 0"
  using validate_group_calendar_date [OF assms(1-6)] assms(7) by auto

lemma day_after_boundary_rejected_iff:
  assumes "input_value childNameId g = Inr name" and "trim name \<noteq> []"
    and "input_value childDOBId g = Inr s" and "isoCalendarDate s = Some (y, m, d)"
    and "today e = (ty, tm, td)" and "101 < ty"
    and "MakeDay y (m - 1) d = MakeDay (ty - 2) tm td + 1"
  shows "validate_group e g = Inr (False, append_error tooYoungMsg g)
           \<longleftrightarrow> - msPerDay < localTZA e (MakeDay (ty - 2) tm td * msPerDay)"
  using validate_group_calendar_date [OF assms(1-6)] assms(7)
  by (auto simp: algebra_simps)

lemma isoCalendarDate_boundary: "isoCalendarDate (js ''2023-11-05'') = Some (2023, 11, 5)"
  by (simp add: isoCalendarDate_def digits_value_def isDigit_def DaysInMonth_def)

lemma boundaryChild_values:
  "input_value childNameId boundaryChild = Inr (js ''Ravi'')"
  "input_value childDOBId boundaryChild = Inr (js ''2023-11-05'')"
  using entered_sampleGroup [of "js ''1''" "js ''Ravi''" "[]" "js ''2023-11-05''" "js ''none''"]
  by (simp_all add: entered_def boundaryChild_def)

lemma boundaryChild_no_errors:
  "filter (\<lambda>x. \<not> is_child_error x) (elems boundaryChild) = elems boundaryChild"
  by (simp add: boundaryChild_def sampleGroup_def)

text \<open>
  C1.  What the code does on the boundary date east of UTC: on 5 November 2025 in India, a
  child born on 5 November 2023 is rejected with the message that the child must be at
  least 2 years old.  The date of birth is read as midnight UTC, which is half past five
  in the morning in India, and the bound is midnight local time of the same day.
\<close>

theorem C1_boundary_date_rejected_east_of_utc:
  "validateChildren sampleEnv boundaryPage
     = (Inr False,
        boundaryPage\<lparr>childrenContainer := [Group (append_error tooYoungMsg boundaryChild)]\<rparr>)"
proof -
  have t: "trim (js ''Ravi'') \<noteq> []" by (simp add: trim_def isWhiteSpace_def)
  have e: "today sampleEnv = (2025, 10, 5)" "localTZA sampleEnv = (\<lambda>t. 19800000)"
    by (simp_all add: sampleEnv_def)
  have v: "validate_group sampleEnv boundaryChild = Inr (False, append_error tooYoungMsg boundaryChild)"
    using validate_group_calendar_date
            [OF boundaryChild_values(1) t boundaryChild_values(2) isoCalendarDate_boundary e(1)]
    by (simp add: e(2))
  have c: "childrenContainer boundaryPage = [Group boundaryChild]"
    by (simp add: boundaryPage_def)
  show ?thesis
    by (simp add: validateChildren_def Let_def c boundaryChild_no_errors v)
qed

text \<open>
  West of UTC the same child on the same day passes: in New York, five hours behind UTC,
  midnight UTC of the day of birth is the evening before.
\<close>

lemma boundary_date_accepted_west_of_utc:
  "validateChildren (sampleEnv\<lparr>localTZA := (\<lambda>t. - 18000000)\<rparr>) boundaryPage
     = (Inr True, boundaryPage)"
proof -
  have t: "trim (js ''Ravi'') \<noteq> []" by (simp add: trim_def isWhiteSpace_def)
  have e: "today (sampleEnv\<lparr>localTZA := (\<lambda>t. - 18000000)\<rparr>) = (2025, 10, 5)"
    by (simp add: sampleEnv_def)
  have v: "validate_group (sampleEnv\<lparr>localTZA := (\<lambda>t. - 18000000)\<rparr>) boundaryChild
             = Inr (True, boundaryChild)"
    using validate_group_calendar_date
            [OF boundaryChild_values(1) t boundaryChild_values(2) isoCalendarDate_boundary e]
    by simp
  have c: "childrenContainer boundaryPage = [Group boundaryChild]"
    by (simp add: boundaryPage_def)
  have r: "boundaryPage\<lparr>childrenContainer := [Group boundaryChild]\<rparr> = boundaryPage"
    by (simp add: boundaryPage_def)
  show ?thesis
    by (simp add: validateChildren_def Let_def c boundaryChild_no_errors v r)
qed

subsection \<open>The children that reach the consent text\<close>

text \<open>
  \<open>composeConsentText\<close> is called by the handler of the step to the consent only, after
  \<open>validateChildren\<close> has returned true, on what \<open>getChildData\<close> then reads: every
  child that reaches it has a legal name.
\<close>

lemma validate_group_passes:
  assumes "validate_group e g = Inr (True, g')"
  shows "g' = g \<and> (\<exists>name. input_value childNameId g = Inr name \<and> trim name \<noteq> [])"
  using assms
  by (auto simp: validate_group_def Let_def split: sum.splits if_splits prod.splits option.splits)

lemma validate_nodes_passes:
  assumes "validate_nodes e valid ns = (Inr True, ns')"
  shows "valid \<and> ns' = ns
         \<and> list_all (\<lambda>g. \<exists>name. input_value childNameId g = Inr name \<and> trim name \<noteq> [])
              (groups_of ns)"
  using assms
proof (induction ns arbitrary: valid ns')
  case Nil
  then show ?case by simp
next
  case (Cons x ns)
  show ?case
  proof (cases x)
    case (ErrorDiv t)
    with Cons.prems obtain ms where "validate_nodes e valid ns = (Inr True, ms)" "ns' = ErrorDiv t # ms"
      by (auto split: prod.splits)
    with Cons.IH [of valid ms] ErrorDiv show ?thesis by simp
  next
    case (Group g)
    with Cons.prems obtain ok g' ms where
      v: "validate_group e g = Inr (ok, g')" and
      r: "validate_nodes e (valid \<and> ok) ns = (Inr True, ms)" and n: "ns' = Group g' # ms"
      by (auto split: sum.splits prod.splits)
    from Cons.IH [OF r] have i: "valid" "ok" "ms = ns"
      "list_all (\<lambda>g. \<exists>name. input_value childNameId g = Inr name \<and> trim name \<noteq> []) (groups_of ns)"
      by simp_all
    from v i(2) validate_group_passes [of e g g'] have "g' = g"
      "\<exists>name. input_value childNameId g = Inr name \<and> trim name \<noteq> []"
      by simp_all
    with i n Group show ?thesis by simp
  qed
qed

lemma collect_legal_names:
  assumes "collect gs = Inr cs"
    and "list_all (\<lambda>g. \<exists>name. input_value childNameId g = Inr name \<and> trim name \<noteq> []) gs"
  shows "list_all (\<lambda>c. legalname c \<noteq> []) cs"
  using assms
proof (induction gs arbitrary: cs)
  case Nil
  then show ?case by simp
next
  case (Cons g gs)
  from Cons.prems(1) obtain d ds where
    d: "child_data_of g = Inr d" and ds: "collect gs = Inr ds" and cs: "cs = d # ds"
    by (auto split: sum.splits)
  from Cons.prems(2) obtain name where "input_value childNameId g = Inr name" "trim name \<noteq> []"
    by auto
  with d have "legalname d \<noteq> []"
    by (auto simp: child_data_of_def split: sum.splits)
  moreover from Cons.IH [OF ds] Cons.prems(2) have "list_all (\<lambda>c. legalname c \<noteq> []) ds" by simp
  ultimately show ?case using cs by simp
qed

lemma consent_text_call_site:
  assumes "validateChildren e st = (Inr True, st2)" and "getChildData st2 = Inr children"
  shows "list_all (\<lambda>c. legalname c \<noteq> []) children"
proof -
  have "groups_of (childrenContainer st) \<noteq> []"
    using assms(1) addChildGroup_raises [of e None "st\<lparr>childrenContainer := remove_errors (childrenContainer st)\<rparr>"]
    by (auto simp: validateChildren_def Let_def)
  with assms(1) obtain ns where
    v: "validate_nodes e True (remove_errors (childrenContainer st)) = (Inr True, ns)"
    and s: "st2 = st\<lparr>childrenContainer := ns\<rparr>"
    by (auto simp: validateChildren_def Let_def split: prod.splits)
  from validate_nodes_passes [OF v] s
  have "list_all (\<lambda>g. \<exists>name. input_value childNameId g = Inr name \<and> trim name \<noteq> [])
          (groups_of (childrenContainer st2))"
    by simp
  with assms(2) show ?thesis
    by (simp add: getChildData_def collect_legal_names)
qed

subsection \<open>The consent text\<close>

lemma childName_child_object:
  "childName (child_object c) =
     Inr (if displayname c \<noteq> []
          then Some (JStr ((if legalname c \<noteq> [] then legalname c else js ''undefined'')
                            @ js '' ('' @ displayname c @ js '')''))
          else if legalname c \<noteq> [] then Some (JStr (legalname c)) else None)"
  by (simp add: childName_def child_object_def or_js_def Let_def)

lemma child_names_child_objects:
  "child_names (map child_object cs) = Inr (map (\<lambda>c. projr (childName (child_object c))) cs)"
  by (induction cs) (simp_all add: childName_child_object)

lemma rendered_as_specified:
  assumes "legalname c \<noteq> [] \<or> displayname c = []"
  shows "(let v = projr (childName (child_object c))
          in if v = None \<or> v = Some JNull then [] else to_string v) = name_as_specified c"
  using assms by (auto simp: childName_child_object name_as_specified_def Let_def)

lemma consent_text_of_records:
  assumes "list_all (\<lambda>c. legalname c \<noteq> [] \<or> displayname c = []) children"
  shows "composeConsentText parentName (map child_object children)
           = Inr (consentHead @ parentName @ consentMiddle
                   @ join (js '', '') (map name_as_specified children) @ consentTail)"
proof -
  have "map (\<lambda>v. if v = None \<or> v = Some JNull then [] else to_string v)
            (map (\<lambda>c. projr (childName (child_object c))) children)
          = map name_as_specified children"
    using assms
  proof (induction children)
    case Nil
    show ?case by simp
  next
    case (Cons c cs)
    then show ?case using rendered_as_specified [of c] by (simp add: Let_def)
  qed
  then show ?thesis
    by (simp only: composeConsentText_def child_names_child_objects join_values_def Let_def
          sum.case)
qed

text \<open>
  C4.  \<open>composeConsentText\<close> is a function of the parent name and the children alone: it
  reads no state and changes none.  On the children that reach it, those that
  \<open>getChildData\<close> reads after \<open>validateChildren\<close> has returned true, its result is
  the fixed text with the parent name put in and the names of the children joined by a
  comma and a space, each name being the legal name, followed by the display name in
  parentheses exactly when the display name is not empty.
\<close>

theorem C4_consent_text_format:
  assumes "validateChildren e st = (Inr True, st2)" and "getChildData st2 = Inr children"
  shows "composeConsentText parentName (map child_object children)
           = Inr (consentHead @ parentName @ consentMiddle
                   @ join (js '', '') (map name_as_specified children) @ consentTail)"
proof -
  have "list_all (\<lambda>c. legalname c \<noteq> []) children"
    using assms by (rule consent_text_call_site)
  then have "list_all (\<lambda>c. legalname c \<noteq> [] \<or> displayname c = []) children"
    by (simp add: list_all_iff)
  then show ?thesis by (rule consent_text_of_records)
qed

lemma MakeDay_samples:
  "MakeDay 2023 10 5 = 19666" "MakeDay 2020 0 1 = 18262" "MakeDay 2019 4 17 = 18033"
  by code_simp+

lemma consentPage_children_values:
  "input_value childNameId raviChild = Inr (js ''Ravi'')"
  "input_value childDisplayNameId raviChild = Inr (js ''Ravu'')"
  "input_value childDOBId raviChild = Inr (js ''2020-01-01'')"
  "input_value childNameId miraChild = Inr (js ''Mira'')"
  "input_value childDisplayNameId miraChild = Inr []"
  "input_value childDOBId miraChild = Inr (js ''2019-05-17'')"
  using entered_sampleGroup [of "js ''1''" "js ''Ravi''" "js ''Ravu''" "js ''2020-01-01''" "js ''none''"]
    entered_sampleGroup [of "js ''2''" "js ''Mira''" "[]" "js ''2019-05-17''" "[]"]
  by (simp_all add: entered_def raviChild_def miraChild_def)

lemma consentPage_children_no_errors:
  "filter (\<lambda>x. \<not> is_child_error x) (elems raviChild) = elems raviChild"
  "filter (\<lambda>x. \<not> is_child_error x) (elems miraChild) = elems miraChild"
  by (simp_all add: raviChild_def miraChild_def sampleGroup_def)

lemma isoCalendarDate_samples:
  "isoCalendarDate (js ''2020-01-01'') = Some (2020, 1, 1)"
  "isoCalendarDate (js ''2019-05-17'') = Some (2019, 5, 17)"
  by (simp_all add: isoCalendarDate_def digits_value_def isDigit_def DaysInMonth_def)

lemma consentPage_container:
  "childrenContainer consentPage = [Group raviChild, Group miraChild]"
  by (simp add: consentPage_def)

lemma validateChildren_consentPage: "validateChildren sampleEnv consentPage = (Inr True, consentPage)"
proof -
  have t: "trim (js ''Ravi'') \<noteq> []" "trim (js ''Mira'') \<noteq> []"
    by (simp_all add: trim_def isWhiteSpace_def)
  have e: "today sampleEnv = (2025, 10, 5)" "localTZA sampleEnv = (\<lambda>t. 19800000)"
    by (simp_all add: sampleEnv_def)
  have r: "validate_group sampleEnv raviChild = Inr (True, raviChild)"
    using validate_group_calendar_date
            [OF consentPage_children_values(1) t(1) consentPage_children_values(3)
                isoCalendarDate_samples(1) e(1)]
    by (simp add: e(2) MakeDay_samples msPerDay_def)
  have m: "validate_group sampleEnv miraChild = Inr (True, miraChild)"
    using validate_group_calendar_date
            [OF consentPage_children_values(4) t(2) consentPage_children_values(6)
                isoCalendarDate_samples(2) e(1)]
    by (simp add: e(2) MakeDay_samples msPerDay_def)
  have c: "consentPage\<lparr>childrenContainer := [Group raviChild, Group miraChild]\<rparr> = consentPage"
    by (simp add: consentPage_def)
  show ?thesis
    by (simp add: validateChildren_def Let_def consentPage_container
          consentPage_children_no_errors r m c)
qed

lemma getChildData_consentPage:
  "getChildData consentPage
     = Inr [\<lparr>legalname = js ''Ravi'', displayname = js ''Ravu'', dob = js ''2020-01-01''\<rparr>,
            \<lparr>legalname = js ''Mira'', displayname = [], dob = js ''2019-05-17''\<rparr>]"
proof -
  have t: "trim (js ''Ravi'') = js ''Ravi''" "trim (js ''Ravu'') = js ''Ravu''"
    "trim (js ''Mira'') = js ''Mira''" "trim [] = []"
    by (simp_all add: trim_def isWhiteSpace_def)
  have "child_data_of raviChild
          = Inr \<lparr>legalname = js ''Ravi'', displayname = js ''Ravu'', dob = js ''2020-01-01''\<rparr>"
    unfolding child_data_of_def consentPage_children_values by (simp add: t [simplified])
  moreover have "child_data_of miraChild
          = Inr \<lparr>legalname = js ''Mira'', displayname = [], dob = js ''2019-05-17''\<rparr>"
    unfolding child_data_of_def consentPage_children_values by (simp add: t [simplified])
  ultimately show ?thesis
    by (simp add: getChildData_def consentPage_container)
qed

theorem C4_consent_text_witness:
  "composeConsentText (js ''Asha'')
     (map child_object
        [\<lparr>legalname = js ''Ravi'', displayname = js ''Ravu'', dob = js ''2020-01-01''\<rparr>,
         \<lparr>legalname = js ''Mira'', displayname = [], dob = js ''2019-05-17''\<rparr>])
     = Inr (consentHead @ js ''Asha'' @ consentMiddle @ js ''Ravi (Ravu), Mira'' @ consentTail)"
  using C4_consent_text_format [OF validateChildren_consentPage getChildData_consentPage,
          of "js ''Asha''"]
  by (simp add: name_as_specified_def)

text \<open>
  The whole click on the page of two children: the third step shows the text.
\<close>

lemma nextToConsentBtn_click_consentPage:
  "nextToConsentBtn_click sampleEnv consentPage
     = (Inr (), consentPage\<lparr>activeStep := 3,
          consentText := consentHead @ js ''Asha'' @ consentMiddle @ js ''Ravi (Ravu), Mira''
                           @ consentTail\<rparr>)"
proof -
  have n: "validateParentNameIfNeeded consentPage = (True, consentPage)"
    by (simp add: validateParentNameIfNeeded_def Let_def consentPage_def emptyPage_def trim_def
          isWhiteSpace_def)
  have p: "trim (parentNameValue consentPage) = js ''Asha''"
    by (simp add: consentPage_def trim_def isWhiteSpace_def)
  have w: "composeConsentText (js ''Asha'')
     (map child_object
        [\<lparr>legalname = js ''Ravi'', displayname = js ''Ravu'', dob = js ''2020-01-01''\<rparr>,
         \<lparr>legalname = js ''Mira'', displayname = [], dob = js ''2019-05-17''\<rparr>])
     = Inr (consentHead @ js ''Asha'' @ consentMiddle @ js ''Ravi (Ravu), Mira'' @ consentTail)"
    by (subst consent_text_of_records) (simp_all add: name_as_specified_def)
  show ?thesis
    using w
    by (simp add: nextToConsentBtn_click_def n validateChildren_consentPage
          getChildData_consentPage p [simplified] showStep_def)
qed

text \<open>
  On arrays that the handler never passes, the function does what lines 331 to 333 say: a
  child that carries \<open>name\<close> in place of \<open>legalname\<close> is named by it; a child with a
  display name and neither of the two reads \<open>undefined (Nick)\<close>; and a \<open>null\<close>
  element raises.
\<close>

lemma consent_text_name_fallback:
  "composeConsentText parentName [JObj [(js ''name'', JStr x), (js ''dob'', JStr d)]]
     = Inr (consentHead @ parentName @ consentMiddle @ x @ consentTail)"
  "composeConsentText parentName
       [JObj [(js ''legalname'', JStr []), (js ''name'', JStr x), (js ''displayname'', JStr [])]]
     = Inr (consentHead @ parentName @ consentMiddle @ x @ consentTail)"
  by (simp_all add: composeConsentText_def childName_def or_js_def join_values_def Let_def)

lemma consent_text_without_legal_name:
  "composeConsentText parentName
       [child_object \<lparr>legalname = [], displayname = js ''Nick'', dob = d\<rparr>]
     = Inr (consentHead @ parentName @ consentMiddle @ js ''undefined (Nick)'' @ consentTail)"
  by (simp add: composeConsentText_def childName_child_object join_values_def Let_def)

lemma consent_text_null_child:
  "composeConsentText parentName (JNull # children) = Inl TypeError"
  by (simp add: composeConsentText_def childName_def)

end
